theory Spec2Isabelle
  imports Complex_Main
begin

section \<open>Embedding cache (src/core/embedding/cache.py)\<close>

text \<open>
  \<^verbatim>\<open>EmbeddingCache\<close> keeps two dictionaries, \<^verbatim>\<open>_cache\<close> (key to vector) and
  \<^verbatim>\<open>_timestamps\<close> (key to insertion time), and a time-to-live. The vector type is
  left polymorphic: the cache never looks inside a vector. Times are integers
  (microseconds, the resolution of \<^verbatim>\<open>datetime\<close>); the reading of the clock
  (\<^verbatim>\<open>datetime.now()\<close>) is an argument of every operation that reads it. The digest
  \<^verbatim>\<open>hashlib.md5(...).hexdigest()\<close> is a library function and is taken as the
  parameter \<open>md5\<close>.
\<close>

record 'v embedding_cache =
  cache :: "string \<rightharpoonup> 'v"
  timestamps :: "string \<rightharpoonup> int"
  ttl :: int

definition EmbeddingCache :: "int \<Rightarrow> 'v embedding_cache" where
  \<comment> \<open>\<^verbatim>\<open>__init__\<close>: \<^verbatim>\<open>timedelta(hours=ttl_hours)\<close> in microseconds.\<close>
  "EmbeddingCache ttl_hours =
     \<lparr>cache = Map.empty, timestamps = Map.empty, ttl = ttl_hours * 3600000000\<rparr>"

definition generate_key :: "(string \<Rightarrow> string) \<Rightarrow> string \<Rightarrow> string \<Rightarrow> string" where
  \<comment> \<open>\<^verbatim>\<open>combined = f"{model}:{text}"\<close>, then the digest.\<close>
  "generate_key md5 text model = md5 (model @ '':'' @ text)"

definition is_valid :: "'v embedding_cache \<Rightarrow> int \<Rightarrow> string \<Rightarrow> bool" where
  "is_valid c now key =
     (case timestamps c key of
        None \<Rightarrow> False
      | Some stamp \<Rightarrow> now - stamp < ttl c)"

definition remove :: "'v embedding_cache \<Rightarrow> string \<Rightarrow> 'v embedding_cache" where
  \<comment> \<open>\<^verbatim>\<open>_remove\<close>: \<^verbatim>\<open>pop(key, None)\<close> on both dictionaries.\<close>
  "remove c key = c\<lparr>cache := (cache c)(key := None), timestamps := (timestamps c)(key := None)\<rparr>"

definition cache_get ::
  "(string \<Rightarrow> string) \<Rightarrow> int \<Rightarrow> 'v embedding_cache \<Rightarrow> string \<Rightarrow> string
     \<Rightarrow> 'v option \<times> 'v embedding_cache" where
  \<comment> \<open>\<^verbatim>\<open>get\<close>: the returned pair is the result and the cache afterwards.\<close>
  "cache_get md5 now c text model =
     (let key = generate_key md5 text model in
      if key \<in> dom (cache c) \<and> is_valid c now key then (cache c key, c)
      else if key \<in> dom (cache c) then (None, remove c key)
      else (None, c))"

definition cache_set ::
  "(string \<Rightarrow> string) \<Rightarrow> int \<Rightarrow> 'v embedding_cache \<Rightarrow> string \<Rightarrow> string \<Rightarrow> 'v
     \<Rightarrow> 'v embedding_cache" where
  \<comment> \<open>\<^verbatim>\<open>set\<close>.\<close>
  "cache_set md5 now c text model embedding =
     (let key = generate_key md5 text model in
      c\<lparr>cache := (cache c)(key \<mapsto> embedding), timestamps := (timestamps c)(key \<mapsto> now)\<rparr>)"

section \<open>Data model (src/models/__init__.py)\<close>

text \<open>
  The pydantic models, with the fields this development reads. Field names carry a
  prefix because a record field is a global constant. Identifiers are the strings of
  the source. A similarity is a float that is only carried around, never computed with;
  it is a \<open>real\<close> here.
\<close>

record memory_fragment =
  f_id :: string
  f_project_id :: string
  f_content :: string
  f_category :: string
  f_tags :: "string list"
  f_source :: string
  f_context_ids :: "string list"

record memory_context =
  c_id :: string
  c_project_id :: string
  c_name :: string
  c_description :: string
  c_fragment_ids :: "string list"

record project =
  pr_id :: string
  pr_name :: string
  pr_description :: string

record search_result =
  sr_fragment :: memory_fragment
  sr_similarity :: real
  sr_context :: "memory_context option"

text \<open>Exceptions are values; every \<^verbatim>\<open>raise\<close> of the source is an \<open>Inl\<close>.\<close>

datatype error =
  ValueError
  | ProviderError
  | StoreError
  | JSONDecodeError
  | AttributeError
  | TypeError

text \<open>
  What \<^verbatim>\<open>json.loads\<close> returns: a JSON value. An object is the list of its items, no
  key twice. The Python views of such a value that the code takes: its truth value
  (\<^verbatim>\<open>if x:\<close>), whether \<^verbatim>\<open>len(x)\<close> is defined, whether it can be a dictionary key,
  what a \<^verbatim>\<open>for\<close> loop over it yields (the characters of a string, the keys of a
  dictionary, a \<^verbatim>\<open>TypeError\<close> for a number, a boolean or \<^verbatim>\<open>None\<close>), and
  \<^verbatim>\<open>x.get(key)\<close>, which only a dictionary has.
\<close>

datatype json =
  JNull
  | JBool bool
  | JNumber real
  | JString string
  | JArray "json list"
  | JObject "(string \<times> json) list"

definition json_truthy :: "json \<Rightarrow> bool" where
  "json_truthy v =
     (case v of
        JNull \<Rightarrow> False
      | JBool b \<Rightarrow> b
      | JNumber x \<Rightarrow> x \<noteq> 0
      | JString str \<Rightarrow> str \<noteq> []
      | JArray xs \<Rightarrow> xs \<noteq> []
      | JObject items \<Rightarrow> items \<noteq> [])"

definition has_len :: "json \<Rightarrow> bool" where
  "has_len v =
     (case v of JString str \<Rightarrow> True | JArray xs \<Rightarrow> True | JObject items \<Rightarrow> True | _ \<Rightarrow> False)"

definition hashable :: "json \<Rightarrow> bool" where
  "hashable v = (case v of JArray xs \<Rightarrow> False | JObject items \<Rightarrow> False | _ \<Rightarrow> True)"

definition is_object :: "json \<Rightarrow> bool" where
  "is_object v = (case v of JObject items \<Rightarrow> True | _ \<Rightarrow> False)"

definition is_string :: "json \<Rightarrow> bool" where
  "is_string v = (case v of JString str \<Rightarrow> True | _ \<Rightarrow> False)"

definition dict_get :: "(string \<times> json) list \<Rightarrow> string \<Rightarrow> json \<Rightarrow> json" where
  \<comment> \<open>\<^verbatim>\<open>d.get(key, default)\<close>.\<close>
  "dict_get items key fallback =
     (case map_of items key of None \<Rightarrow> fallback | Some v \<Rightarrow> v)"

definition setdefault :: "(string \<times> json) list \<Rightarrow> string \<Rightarrow> json \<Rightarrow> (string \<times> json) list" where
  "setdefault items key fallback =
     (if key \<in> fst ` set items then items else items @ [(key, fallback)])"

definition py_iter :: "json \<Rightarrow> error + json list" where
  "py_iter v =
     (case v of
        JArray xs \<Rightarrow> Inr xs
      | JString str \<Rightarrow> Inr (map (\<lambda>c. JString [c]) str)
      | JObject items \<Rightarrow> Inr (map (\<lambda>item. JString (fst item)) items)
      | _ \<Rightarrow> Inl TypeError)"

primrec strings_of :: "json list \<Rightarrow> string list option" where
  "strings_of [] = Some []"
| "strings_of (v # vs) =
     (case v of
        JString str \<Rightarrow> map_option (\<lambda>rest. str # rest) (strings_of vs)
      | _ \<Rightarrow> None)"

section \<open>Grouped recall (src/core/memory/search.py, search_memory)\<close>

text \<open>
  \<^verbatim>\<open>project_ids\<close> is \<^verbatim>\<open>None\<close>, one id or a list of ids. The stored projects
  (\<^verbatim>\<open>storage.list_projects()\<close>), the embedding service and the per-project search
  (\<^verbatim>\<open>storage.search_fragments\<close> with \<^verbatim>\<open>options.project_id\<close> set) are collaborators and
  are arguments; the last two can raise. The nested dictionary is a map of maps.
\<close>

datatype project_sel = AllProjects | OneProject string | Projects "string list"

type_synonym grouped_results = "string \<rightharpoonup> (string \<rightharpoonup> search_result list)"

definition resolve_targets ::
  "string list \<Rightarrow> project_sel \<Rightarrow> string option \<Rightarrow> error + string list" where
  "resolve_targets all_projects project_ids default_project_id =
     (let target_project_ids =
            (case project_ids of
               AllProjects \<Rightarrow> all_projects
             | OneProject p \<Rightarrow> [p]
             | Projects ps \<Rightarrow> ps)
      in if target_project_ids = [] then
           (case default_project_id of
              None \<Rightarrow> Inl ValueError
            | Some d \<Rightarrow> if d \<noteq> [] then Inr [d] else Inl ValueError)
         else Inr target_project_ids)"

definition group_key :: "search_result \<Rightarrow> string" where
  \<comment> \<open>The first context id of the fragment, or the default \<^verbatim>\<open>"unassigned"\<close>.\<close>
  "group_key sr =
     (case f_context_ids (sr_fragment sr) of
        [] \<Rightarrow> ''unassigned''
      | context_id # _ \<Rightarrow> context_id)"

fun group_by_context ::
  "(string \<rightharpoonup> search_result list) \<Rightarrow> search_result list \<Rightarrow> (string \<rightharpoonup> search_result list)" where
  "group_by_context g [] = g"
| "group_by_context g (sr # srs) =
     (case g (group_key sr) of
        None \<Rightarrow> group_by_context (g(group_key sr \<mapsto> [sr])) srs
      | Some bucket \<Rightarrow> group_by_context (g(group_key sr \<mapsto> bucket @ [sr])) srs)"

fun search_projects ::
  "(string \<Rightarrow> error + search_result list) \<Rightarrow> grouped_results \<Rightarrow> string list
     \<Rightarrow> error + grouped_results" where
  "search_projects search grouped [] = Inr grouped"
| "search_projects search grouped (p_id # rest) =
     (case search p_id of
        Inl e \<Rightarrow> Inl e
      | Inr project_search_results \<Rightarrow>
          if project_search_results \<noteq> [] then
            search_projects search
              (grouped(p_id \<mapsto> group_by_context Map.empty project_search_results)) rest
          else search_projects search grouped rest)"

definition search_memory ::
  "string list \<Rightarrow> (string \<Rightarrow> error + 'vec) \<Rightarrow> ('vec \<Rightarrow> string \<Rightarrow> error + search_result list)
     \<Rightarrow> string \<Rightarrow> project_sel \<Rightarrow> string option \<Rightarrow> error + grouped_results" where
  "search_memory all_projects generate_embedding search_fragments query project_ids
       default_project_id =
     (case resolve_targets all_projects project_ids default_project_id of
        Inl e \<Rightarrow> Inl e
      | Inr target_project_ids \<Rightarrow>
          (case generate_embedding query of
             Inl e \<Rightarrow> Inl e
           | Inr query_embedding \<Rightarrow>
               search_projects (search_fragments query_embedding) Map.empty target_project_ids))"

text \<open>The hits of one project whose group key is a given context id, in search order.\<close>

definition bucket_of :: "search_result list \<Rightarrow> string \<Rightarrow> search_result list" where
  "bucket_of hits context_id = filter (\<lambda>sr. group_key sr = context_id) hits"

section \<open>Python string operations\<close>

text \<open>
  A Python \<^verbatim>\<open>str\<close> is a list of code points; the model has the code points below 256,
  one \<open>char\<close> each. \<open>is_space\<close> is \<^verbatim>\<open>str.isspace\<close> on one such character: the
  controls 9 to 13 and 28 to 31, the space, NEL (133) and the no-break space (160).
\<close>

definition is_space :: "char \<Rightarrow> bool" where
  "is_space c =
     (let n = (of_char c :: nat)
      in (9 \<le> n \<and> n \<le> 13) \<or> (28 \<le> n \<and> n \<le> 32) \<or> n = 133 \<or> n = 160)"

text \<open>\<^verbatim>\<open>s.split()\<close>: the maximal runs of characters that are not whitespace.\<close>

fun words_from :: "string \<Rightarrow> string \<Rightarrow> string list" where
  "words_from cur [] = (if cur = [] then [] else [cur])"
| "words_from cur (c # cs) =
     (if is_space c then (if cur = [] then words_from [] cs else cur # words_from [] cs)
      else words_from (cur @ [c]) cs)"

definition split_ws :: "string \<Rightarrow> string list" where
  "split_ws s = words_from [] s"

text \<open>\<^verbatim>\<open>s.strip()\<close>.\<close>

definition strip :: "string \<Rightarrow> string" where
  "strip s = rev (dropWhile is_space (rev (dropWhile is_space s)))"

text \<open>
  \<^verbatim>\<open>s.split(". ")\<close>: cut at every occurrence of the separator found scanning from the
  left, occurrences not overlapping; the result is never empty.
\<close>

fun split_from :: "string \<Rightarrow> string \<Rightarrow> string list" where
  "split_from cur [] = [cur]"
| "split_from cur [c] = [cur @ [c]]"
| "split_from cur (c # d # cs) =
     (if c = CHR ''.'' \<and> d = CHR '' '' then cur # split_from [] cs
      else split_from (cur @ [c]) (d # cs))"

definition split_sentences :: "string \<Rightarrow> string list" where
  "split_sentences s = split_from [] s"

text \<open>\<^verbatim>\<open>sep.join(parts)\<close>.\<close>

definition join :: "string \<Rightarrow> string list \<Rightarrow> string" where
  "join sep parts =
     (case parts of
        [] \<Rightarrow> []
      | p # ps \<Rightarrow> p @ concat (map (\<lambda>q. sep @ q) ps))"

text \<open>\<^verbatim>\<open>needle in hay\<close> on strings.\<close>

fun startswith :: "string \<Rightarrow> string \<Rightarrow> bool" where
  "startswith s [] = True"
| "startswith [] (p # ps) = False"
| "startswith (c # cs) (p # ps) = (c = p \<and> startswith cs ps)"

fun contains :: "string \<Rightarrow> string \<Rightarrow> bool" where
  "contains [] needle = (needle = [])"
| "contains (c # cs) needle = (startswith (c # cs) needle \<or> contains cs needle)"

text \<open>
  \<^verbatim>\<open>s.lower()\<close> on the code points below 256: the ASCII capitals and the capitals
  192 to 222 other than the multiplication sign (215) move up by 32.
\<close>

definition lower_char :: "char \<Rightarrow> char" where
  "lower_char c =
     (let n = (of_char c :: nat)
      in if (65 \<le> n \<and> n \<le> 90) \<or> (192 \<le> n \<and> n \<le> 222 \<and> n \<noteq> 215)
         then char_of (n + 32) else c)"

definition lower :: "string \<Rightarrow> string" where
  "lower s = map lower_char s"

definition replace_char :: "char \<Rightarrow> char \<Rightarrow> string \<Rightarrow> string" where
  \<comment> \<open>\<^verbatim>\<open>s.replace(a, b)\<close> for one-character \<^verbatim>\<open>a\<close> and \<^verbatim>\<open>b\<close>.\<close>
  "replace_char a b s = map (\<lambda>c. if c = a then b else c) s"

section \<open>Fallback splitter (src/mcp/intelligence/chunking.py, \_fallback\_chunking)\<close>

text \<open>A chunk dictionary; \<^verbatim>\<open>max_chunk_words\<close> is a configuration integer.\<close>

record chunk =
  ch_content :: string
  ch_semantic_summary :: string
  ch_key_concepts :: "string list"
  ch_chunk_type :: string
  ch_word_count :: nat

definition fallback_chunk :: "string \<Rightarrow> chunk" where
  "fallback_chunk current_chunk =
     \<lparr>ch_content = strip current_chunk,
      ch_semantic_summary = take 50 current_chunk @ ''...'',
      ch_key_concepts = [],
      ch_chunk_type = ''fallback'',
      ch_word_count = length (split_ws current_chunk)\<rparr>"

text \<open>One round of the \<^verbatim>\<open>for sentence in sentences\<close> loop, on the pair of
  \<^verbatim>\<open>chunks\<close> and \<^verbatim>\<open>current_chunk\<close>.\<close>

definition fallback_step :: "int \<Rightarrow> chunk list \<times> string \<Rightarrow> string \<Rightarrow> chunk list \<times> string" where
  "fallback_step max_chunk_words st sentence =
     (case st of (chunks, current_chunk) \<Rightarrow>
        (let test_chunk = (if current_chunk \<noteq> [] then current_chunk @ ''. '' @ sentence
                           else sentence)
         in if int (length (split_ws test_chunk)) > max_chunk_words \<and> current_chunk \<noteq> [] then
              (chunks @ [fallback_chunk current_chunk], sentence)
            else (chunks, test_chunk)))"

primrec fallback_loop :: "int \<Rightarrow> chunk list \<times> string \<Rightarrow> string list \<Rightarrow> chunk list \<times> string" where
  "fallback_loop max_chunk_words st [] = st"
| "fallback_loop max_chunk_words st (sentence # sentences) =
     fallback_loop max_chunk_words (fallback_step max_chunk_words st sentence) sentences"

definition fallback_chunking :: "int \<Rightarrow> string \<Rightarrow> chunk list" where
  "fallback_chunking max_chunk_words content =
     (case fallback_loop max_chunk_words ([], []) (split_sentences content) of
        (chunks, current_chunk) \<Rightarrow>
          if current_chunk \<noteq> [] then chunks @ [fallback_chunk current_chunk] else chunks)"

text \<open>
  Two predicates for stating what the splitter guarantees. A sentence is \<open>clean\<close> when
  it is not empty and neither begins nor ends with whitespace. A chunk is
  \<open>within_limit\<close> when its word count is at most \<^verbatim>\<open>max_chunk_words\<close> or it is one
  whole sentence of the input.
\<close>

definition clean :: "string \<Rightarrow> bool" where
  "clean s = (s \<noteq> [] \<and> \<not> is_space (hd s) \<and> \<not> is_space (last s))"

definition within_limit :: "int \<Rightarrow> string list \<Rightarrow> chunk \<Rightarrow> bool" where
  "within_limit m sentences ch =
     (int (ch_word_count ch) \<le> m \<or>
      (\<exists>s \<in> set sentences. ch_content ch = strip s \<and> ch_word_count ch = length (split_ws s)))"

section \<open>Semantic chunker (src/mcp/intelligence/chunking.py, SemanticChunker)\<close>

text \<open>
  \<^verbatim>\<open>text.find(sub, start)\<close>, \<^verbatim>\<open>text.rfind(sub)\<close> (\<open>-1\<close> when absent)
  and the slice \<^verbatim>\<open>text[a:b]\<close> with Python's treatment of negative and overlong bounds.
\<close>

fun find_at :: "nat \<Rightarrow> string \<Rightarrow> string \<Rightarrow> int" where
  "find_at i [] sub = (if sub = [] then int i else - 1)"
| "find_at i (c # cs) sub =
     (if startswith (c # cs) sub then int i else find_at (Suc i) cs sub)"

definition str_find :: "string \<Rightarrow> string \<Rightarrow> nat \<Rightarrow> int" where
  "str_find text sub start =
     (if start > length text then - 1 else find_at start (drop start text) sub)"

definition rfind :: "string \<Rightarrow> string \<Rightarrow> int" where
  "rfind text sub =
     (case filter (\<lambda>i. startswith (drop i text) sub) (rev [0 ..< Suc (length text)]) of
        [] \<Rightarrow> - 1
      | i # _ \<Rightarrow> int i)"

definition slice :: "string \<Rightarrow> int \<Rightarrow> int \<Rightarrow> string" where
  "slice text a b =
     (let n = int (length text);
          lo = (if a < 0 then max 0 (n + a) else min a n);
          hi = (if b < 0 then max 0 (n + b) else min b n)
      in take (nat (hi - lo)) (drop (nat lo) text))"

definition extract_json :: "string \<Rightarrow> string" where
  "extract_json text =
     (if contains text ''```json'' then
        (let start = str_find text ''```json'' 0 + 7;
             end_idx = str_find text ''```'' (nat start)
         in strip (slice text start end_idx))
      else if contains text ''```'' then
        (let start = str_find text ''```'' 0 + 3;
             end_idx = rfind text ''```''
         in strip (slice text start end_idx))
      else text)"

text \<open>
  The generative client is the argument \<open>generate\<close>: the text of the response to a
  prompt, or the exception of the call. \<open>loads_chunks\<close> stands for
  \<^verbatim>\<open>json.loads(result_text)\<close> followed by \<^verbatim>\<open>result.get("chunks", [])\<close>, which raises on
  text that is not JSON or not an object. \<open>chunking_prompt\<close> is the f-string of
  \<^verbatim>\<open>_semantic_chunking\<close>, a fixed text around the content and the two limits.
\<close>

definition extract_summary :: "(string \<Rightarrow> error + string) \<Rightarrow> string \<Rightarrow> string" where
  "extract_summary generate content =
     (if length (split_ws content) \<le> 30 then
        (if length content > 100 then take 100 content @ ''...'' else content)
      else
        (case generate (''Resumen en 1 frase: '' @ content) of
           Inr text \<Rightarrow> strip text
         | Inl e \<Rightarrow> take 100 content @ ''...''))"

fun split_char_from :: "char \<Rightarrow> string \<Rightarrow> string \<Rightarrow> string list" where
  "split_char_from sep cur [] = [cur]"
| "split_char_from sep cur (c # cs) =
     (if c = sep then cur # split_char_from sep [] cs
      else split_char_from sep (cur @ [c]) cs)"

definition extract_concepts :: "(string \<Rightarrow> error + string) \<Rightarrow> string \<Rightarrow> string list" where
  \<comment> \<open>The bullet removed by the first \<^verbatim>\<open>replace\<close> is not a code point below 256.\<close>
  "extract_concepts generate content =
     (case generate (''Extrae 3-5 conceptos clave de: '' @ content) of
        Inr text \<Rightarrow>
          take 5 (map (\<lambda>c. filter (\<lambda>x. x \<noteq> CHR ''-'') (strip c))
                    (filter (\<lambda>c. strip c \<noteq> []) (split_char_from (CHR '','') [] (strip text))))
      | Inl e \<Rightarrow>
          take 3 (filter (\<lambda>w. length w > 3) (take 10 (split_ws content))))"

definition semantic_chunking ::
  "(string \<Rightarrow> error + string) \<Rightarrow> (string \<Rightarrow> error + chunk list) \<Rightarrow> (string \<Rightarrow> string)
     \<Rightarrow> string \<Rightarrow> error + chunk list" where
  \<comment> \<open>The \<^verbatim>\<open>except\<close> clause logs and re-raises.\<close>
  "semantic_chunking generate loads_chunks chunking_prompt content =
     (case generate (chunking_prompt content) of
        Inl e \<Rightarrow> Inl e
      | Inr text \<Rightarrow>
          (case loads_chunks (extract_json (strip text)) of
             Inl e \<Rightarrow> Inl e
           | Inr chunks \<Rightarrow> Inr chunks))"

definition chunk_content ::
  "(string \<Rightarrow> error + string) \<Rightarrow> (string \<Rightarrow> error + chunk list) \<Rightarrow> (string \<Rightarrow> string)
     \<Rightarrow> int \<Rightarrow> string \<Rightarrow> error + chunk list" where
  "chunk_content generate loads_chunks chunking_prompt max_chunk_words content =
     (let word_count = length (split_ws content)
      in if int word_count \<le> max_chunk_words then
           Inr [\<lparr>ch_content = content,
                 ch_semantic_summary = extract_summary generate content,
                 ch_key_concepts = extract_concepts generate content,
                 ch_chunk_type = ''atomic'',
                 ch_word_count = word_count\<rparr>]
         else semantic_chunking generate loads_chunks chunking_prompt content)"

section \<open>The stores (src/core/storage) and the memory service (src/core/memory)\<close>

text \<open>
  The state is the three SQLite tables this development reads, the Qdrant collections and
  their points (collection name and point id), and the number of identifiers drawn from
  \<^verbatim>\<open>uuid.uuid4()\<close>. A table is the list of its rows in insertion order; identifiers
  are taken to be fresh, so the primary-key check on insertion is not modelled.

  What the outside world does is the record \<open>env\<close>: whether a given SQLite statement or
  Qdrant call raises, what the embedding service returns for a text (vector or
  exception), what Qdrant finds for a query, and the identifiers \<^verbatim>\<open>uuid4\<close> hands out.
  An outcome depends on the operation and its argument only. The last two fields say
  what a batch delete does when it is handed something other than a list of strings:
  the ids of the rows (of the points) that go, or \<open>None\<close> when the statement (the
  Qdrant call) raises.
\<close>

record store =
  projects :: "project list"
  fragments :: "memory_fragment list"
  contexts :: "memory_context list"
  collections :: "string list"
  points :: "(string \<times> string) list"
  uuids_drawn :: nat

datatype sql_op =
  SelectFragment string
  | SelectContext string
  | SelectProject string
  | ListContexts string
  | InsertFragment string
  | InsertContext string
  | DeleteFragments "string list"
  | UpdateContext string

datatype qdrant_op =
  CreateCollection string
  | SearchPoints string
  | UpsertPoint string
  | DeletePoints "string list"

record env =
  sqlite_fails :: "sql_op \<Rightarrow> bool"
  qdrant_fails :: "qdrant_op \<Rightarrow> bool"
  embedding_of :: "string \<Rightarrow> error + real list"
  qdrant_hits :: "string \<Rightarrow> real list \<Rightarrow> (string \<times> real) list"
  uuid4 :: "nat \<Rightarrow> string"
  max_content_length :: nat
  odd_delete_rows :: "json \<Rightarrow> string list option"
  odd_delete_points :: "json \<Rightarrow> string list option"

subsection \<open>Storage layer\<close>

definition get_or_create_collection :: "env \<Rightarrow> store \<Rightarrow> string \<Rightarrow> (error + string) \<times> store" where
  \<comment> \<open>\<^verbatim>\<open>get_collection\<close> succeeds on an existing collection; otherwise
      \<^verbatim>\<open>create_collection\<close> runs, outside any \<^verbatim>\<open>try\<close>.\<close>
  "get_or_create_collection e s project_id =
     (let collection_name = ''project_'' @ replace_char (CHR ''-'') (CHR ''_'') project_id
      in if collection_name \<in> set (collections s) then (Inr collection_name, s)
         else if qdrant_fails e (CreateCollection collection_name) then (Inl StoreError, s)
         else (Inr collection_name, s\<lparr>collections := collections s @ [collection_name]\<rparr>))"

definition storage_get_project :: "env \<Rightarrow> store \<Rightarrow> string \<Rightarrow> project option" where
  "storage_get_project e s project_id =
     (if sqlite_fails e (SelectProject project_id) then None
      else List.find (\<lambda>p. pr_id p = project_id) (projects s))"

definition storage_get_fragment :: "env \<Rightarrow> store \<Rightarrow> string \<Rightarrow> memory_fragment option" where
  "storage_get_fragment e s fragment_id =
     (if sqlite_fails e (SelectFragment fragment_id) then None
      else List.find (\<lambda>f. f_id f = fragment_id) (fragments s))"

definition storage_get_context :: "env \<Rightarrow> store \<Rightarrow> string \<Rightarrow> memory_context option" where
  "storage_get_context e s context_id =
     (if sqlite_fails e (SelectContext context_id) then None
      else List.find (\<lambda>c. c_id c = context_id) (contexts s))"

definition storage_list_contexts_by_project :: "env \<Rightarrow> store \<Rightarrow> string \<Rightarrow> memory_context list" where
  \<comment> \<open>\<^verbatim>\<open>ORDER BY created_at DESC\<close>: the newest row first.\<close>
  "storage_list_contexts_by_project e s project_id =
     (if sqlite_fails e (ListContexts project_id) then []
      else rev (filter (\<lambda>c. c_project_id c = project_id) (contexts s)))"

definition storage_create_context :: "env \<Rightarrow> store \<Rightarrow> memory_context \<Rightarrow> (error + string) \<times> store" where
  "storage_create_context e s ctx =
     (if sqlite_fails e (InsertContext (c_name ctx)) then (Inl StoreError, s)
      else (Inr (c_id ctx), s\<lparr>contexts := contexts s @ [ctx]\<rparr>))"

definition storage_update_context_fragments ::
  "env \<Rightarrow> store \<Rightarrow> string \<Rightarrow> string list \<Rightarrow> bool \<times> store" where
  "storage_update_context_fragments e s context_id fragment_ids =
     (if sqlite_fails e (UpdateContext context_id) then (False, s)
      else (\<exists>c \<in> set (contexts s). c_id c = context_id,
            s\<lparr>contexts := map (\<lambda>c. if c_id c = context_id
                                     then c\<lparr>c_fragment_ids := fragment_ids\<rparr> else c)
                               (contexts s)\<rparr>))"

definition storage_store_fragment ::
  "env \<Rightarrow> store \<Rightarrow> memory_fragment \<Rightarrow> real list \<Rightarrow> (error + string) \<times> store" where
  \<comment> \<open>The row is committed before the Qdrant calls; a failure there leaves the row.\<close>
  "storage_store_fragment e s fragment embedding =
     (if sqlite_fails e (InsertFragment (f_content fragment)) then (Inl StoreError, s)
      else
        (let s1 = s\<lparr>fragments := fragments s @ [fragment]\<rparr>
         in case get_or_create_collection e s1 (f_project_id fragment) of
              (Inl err, s2) \<Rightarrow> (Inl err, s2)
            | (Inr collection_name, s2) \<Rightarrow>
                if qdrant_fails e (UpsertPoint (f_id fragment)) then (Inl StoreError, s2)
                else (Inr (f_id fragment),
                      s2\<lparr>points := points s2 @ [(collection_name, f_id fragment)]\<rparr>)))"

definition storage_delete_fragments ::
  "env \<Rightarrow> store \<Rightarrow> string list \<Rightarrow> string \<Rightarrow> bool \<times> store" where
  \<comment> \<open>Every failure is caught inside and answered with \<^verbatim>\<open>False\<close>; the rows are
      deleted and committed before the Qdrant calls.\<close>
  "storage_delete_fragments e s fragment_ids project_id =
     (if fragment_ids = [] then (True, s)
      else if sqlite_fails e (DeleteFragments fragment_ids) then (False, s)
      else
        (let sqlite_success = (\<exists>f \<in> set (fragments s). f_id f \<in> set fragment_ids);
             s1 = s\<lparr>fragments := filter (\<lambda>f. f_id f \<notin> set fragment_ids) (fragments s)\<rparr>
         in case get_or_create_collection e s1 project_id of
              (Inl err, s2) \<Rightarrow> (False, s2)
            | (Inr collection_name, s2) \<Rightarrow>
                if qdrant_fails e (DeletePoints fragment_ids) then (False, s2)
                else (sqlite_success,
                      s2\<lparr>points := filter (\<lambda>(c, i). \<not> (c = collection_name \<and> i \<in> set fragment_ids))
                                      (points s2)\<rparr>)))"

definition semantic_search ::
  "env \<Rightarrow> store \<Rightarrow> real list \<Rightarrow> string \<Rightarrow> (error + (string \<times> real) list) \<times> store" where
  "semantic_search e s query_embedding project_id =
     (if project_id = [] then (Inl ValueError, s)
      else
        (case get_or_create_collection e s project_id of
           (Inl err, s1) \<Rightarrow> (Inl err, s1)
         | (Inr collection_name, s1) \<Rightarrow>
             if qdrant_fails e (SearchPoints collection_name) then (Inl StoreError, s1)
             else (Inr (qdrant_hits e collection_name query_embedding), s1)))"

definition hit_result :: "env \<Rightarrow> store \<Rightarrow> string \<times> real \<Rightarrow> search_result list" where
  \<comment> \<open>One round of the loop of \<^verbatim>\<open>search_fragments\<close>: a hit without a row is skipped.\<close>
  "hit_result e s hit =
     (case storage_get_fragment e s (fst hit) of
        None \<Rightarrow> []
      | Some fragment \<Rightarrow>
          [\<lparr>sr_fragment = fragment, sr_similarity = snd hit,
            sr_context = (case f_context_ids fragment of
                            [] \<Rightarrow> None
                          | context_id # _ \<Rightarrow> storage_get_context e s context_id)\<rparr>])"

definition search_fragments ::
  "env \<Rightarrow> store \<Rightarrow> real list \<Rightarrow> string \<Rightarrow> (error + search_result list) \<times> store" where
  "search_fragments e s query_embedding project_id =
     (case semantic_search e s query_embedding project_id of
        (Inl err, s1) \<Rightarrow> (Inl err, s1)
      | (Inr search_results, s1) \<Rightarrow> (Inr (concat (map (hit_result e s1) search_results)), s1))"

subsection \<open>Memory service\<close>

definition generate_embedding :: "env \<Rightarrow> string \<Rightarrow> error + real list" where
  "generate_embedding e text =
     (if text = [] \<or> strip text = [] then Inl ValueError else embedding_of e text)"

definition search_memory_by_vector ::
  "env \<Rightarrow> store \<Rightarrow> real list \<Rightarrow> string \<Rightarrow> (error + search_result list) \<times> store" where
  "search_memory_by_vector e s query_vector project_id =
     (if project_id = [] then (Inl ValueError, s)
      else search_fragments e s query_vector project_id)"

definition create_context ::
  "env \<Rightarrow> store \<Rightarrow> string \<Rightarrow> string \<Rightarrow> string \<Rightarrow> (error + string) \<times> store" where
  "create_context e s project_id name description =
     (let context_id = uuid4 e (uuids_drawn s);
          s1 = s\<lparr>uuids_drawn := Suc (uuids_drawn s)\<rparr>
      in storage_create_context e s1
           \<lparr>c_id = context_id, c_project_id = project_id, c_name = name,
            c_description = description, c_fragment_ids = []\<rparr>)"

definition store_fragment ::
  "env \<Rightarrow> store \<Rightarrow> string \<Rightarrow> string \<Rightarrow> string \<Rightarrow> string \<Rightarrow> string list
     \<Rightarrow> (error + string) \<times> store" where
  "store_fragment e s project_id content category source context_ids =
     (if content = [] \<or> strip content = [] then (Inl ValueError, s)
      else
        (let content1 = (if length content > max_content_length e
                         then take (max_content_length e) content else content)
         in case generate_embedding e content1 of
              Inl err \<Rightarrow> (Inl err, s)
            | Inr embedding \<Rightarrow>
                (let fragment_id = uuid4 e (uuids_drawn s);
                     s1 = s\<lparr>uuids_drawn := Suc (uuids_drawn s)\<rparr>
                 in storage_store_fragment e s1
                      \<lparr>f_id = fragment_id, f_project_id = project_id, f_content = content1,
                       f_category = category, f_tags = [], f_source = source,
                       f_context_ids = context_ids\<rparr> embedding)))"

definition delete_fragments :: "env \<Rightarrow> store \<Rightarrow> string list \<Rightarrow> string \<Rightarrow> bool \<times> store" where
  \<comment> \<open>\<^verbatim>\<open>try: return storage.delete_fragments(...)\<close>, \<^verbatim>\<open>except: return False\<close>; the
      storage call returns a boolean on every path, so the handler has nothing to catch.\<close>
  "delete_fragments e s fragment_ids project_id =
     storage_delete_fragments e s fragment_ids project_id"

section \<open>Context resolver (src/mcp/intelligence/contextualization.py)\<close>

definition normalize_context_name :: "string \<Rightarrow> string" where
  "normalize_context_name name =
     strip (replace_char (CHR ''-'') (CHR '' '') (replace_char (CHR ''_'') (CHR '' '') (lower name)))"

text \<open>
  \<^verbatim>\<open>overlap / min_words >= 0.5\<close> divides two small integers; the quotient is taken in
  the reals. The division is reached only when both word sets are non-empty.
\<close>

definition contexts_match :: "string \<Rightarrow> string \<Rightarrow> bool" where
  "contexts_match name1 name2 =
     (let n1 = normalize_context_name name1;
          n2 = normalize_context_name name2
      in if n1 = n2 then True
         else if contains n2 n1 \<or> contains n1 n2 then True
         else
           (let words1 = set (split_ws n1);
                words2 = set (split_ws n2)
            in if words1 = {} \<or> words2 = {} then False
               else
                 (let overlap = card (words1 \<inter> words2);
                      min_words = min (card words1) (card words2)
                  in real overlap / real min_words \<ge> 0.5)))"

text \<open>
  Creating a context when no cached one matches. \<open>describe\<close> is the generative client
  on the description prompt built for a context name: its text or its exception. Of the
  chunk that suggested the name, the key concepts are what the modelled part reads.
\<close>

definition generate_context_description ::
  "(string \<Rightarrow> error + string) \<Rightarrow> string \<Rightarrow> string list \<Rightarrow> string" where
  "generate_context_description describe context_name key_concepts =
     (case describe context_name of
        Inr text \<Rightarrow> filter (\<lambda>c. c \<noteq> CHR 0x22 \<and> c \<noteq> CHR 0x27) (strip text)
      | Inl e \<Rightarrow>
          ''Contexto que agrupa informaci'' @ [CHR 0xF3] @ ''n relacionada con ''
            @ join '', '' (take 3 key_concepts) @ ''.'')"

definition create_new_context ::
  "env \<Rightarrow> (string \<Rightarrow> error + string) \<Rightarrow> store \<Rightarrow> string \<Rightarrow> string \<Rightarrow> string list
     \<Rightarrow> string option \<times> store" where
  "create_new_context e describe s context_name project_id key_concepts =
     (let description = generate_context_description describe context_name key_concepts
      in case create_context e s project_id context_name description of
           (Inl err, s1) \<Rightarrow> (None, s1)
         | (Inr context_id, s1) \<Rightarrow> (Some context_id, s1))"

definition the_default :: "'a \<Rightarrow> 'a option \<Rightarrow> 'a" where
  "the_default d x = (case x of None \<Rightarrow> d | Some v \<Rightarrow> v)"

definition truthy :: "string option \<Rightarrow> bool" where
  \<comment> \<open>\<^verbatim>\<open>if x:\<close> for an optional string: neither \<^verbatim>\<open>None\<close> nor empty.\<close>
  "truthy x = (case x of None \<Rightarrow> False | Some v \<Rightarrow> v \<noteq> [])"

definition resolve_single_context ::
  "env \<Rightarrow> (string \<Rightarrow> error + string) \<Rightarrow> store \<Rightarrow> memory_context list \<Rightarrow> string \<Rightarrow> string
     \<Rightarrow> string list \<Rightarrow> string option \<times> memory_context list \<times> store" where
  \<comment> \<open>The result, the cached list afterwards and the store afterwards.\<close>
  "resolve_single_context e describe s existing_contexts context_name project_id key_concepts =
     (case List.find (\<lambda>ctx. contexts_match context_name (c_name ctx)) existing_contexts of
        Some ctx \<Rightarrow> (Some (c_id ctx), existing_contexts, s)
      | None \<Rightarrow>
          (case create_new_context e describe s context_name project_id key_concepts of
             (context_id, s1) \<Rightarrow>
               if truthy context_id then
                 (context_id,
                  existing_contexts @
                    [\<lparr>c_id = the_default [] context_id, c_project_id = project_id,
                      c_name = context_name, c_description = [], c_fragment_ids = []\<rparr>],
                  s1)
               else (context_id, existing_contexts, s1)))"

primrec resolve_names ::
  "env \<Rightarrow> (string \<Rightarrow> error + string) \<Rightarrow> string \<Rightarrow> string list \<Rightarrow> string list
     \<Rightarrow> string list \<times> memory_context list \<times> store \<Rightarrow> string list \<times> memory_context list \<times> store" where
  "resolve_names e describe project_id key_concepts [] st = st"
| "resolve_names e describe project_id key_concepts (context_name # rest) st =
     (case st of (context_ids, existing_contexts, s) \<Rightarrow>
        (case resolve_single_context e describe s existing_contexts context_name project_id
                key_concepts of
           (context_id, existing1, s1) \<Rightarrow>
             resolve_names e describe project_id key_concepts rest
               (if truthy context_id then context_ids @ [the_default [] context_id]
                else context_ids, existing1, s1)))"

definition resolve_contexts ::
  "env \<Rightarrow> (string \<Rightarrow> error + string) \<Rightarrow> store \<Rightarrow> (string \<rightharpoonup> memory_context list)
     \<Rightarrow> string list \<Rightarrow> string \<Rightarrow> string list
     \<Rightarrow> string list \<times> (string \<rightharpoonup> memory_context list) \<times> store" where
  \<comment> \<open>\<^verbatim>\<open>_get_cached_contexts\<close> fills the cache on a miss; the loop then works on the
      cached list, which the appends of \<^verbatim>\<open>_resolve_single_context\<close> extend in place.\<close>
  "resolve_contexts e describe s context_cache context_names project_id key_concepts =
     (let existing_contexts =
            (case context_cache project_id of
               Some cached \<Rightarrow> cached
             | None \<Rightarrow> storage_list_contexts_by_project e s project_id)
      in case resolve_names e describe project_id key_concepts context_names
                ([], existing_contexts, s) of
           (context_ids, existing1, s1) \<Rightarrow>
             (context_ids, context_cache(project_id \<mapsto> existing1), s1))"

section \<open>Ingestion curator (src/mcp/intelligence/ingestion\_curator.py)\<close>

text \<open>
  The answer of the generative client to the curation prompt. The call can raise, and
  so does \<^verbatim>\<open>json.loads\<close> on a response without text (both are \<open>CallRaises\<close>);
  the text can fail to parse as JSON; otherwise \<^verbatim>\<open>json.loads\<close> returns a
  JSON value, which nothing validates against the response schema. On a value that is
  not an object \<^verbatim>\<open>decision.setdefault\<close> raises; on an object the three
  \<^verbatim>\<open>setdefault\<close> calls add the keys that are missing. A decision is the object
  after that.
\<close>

datatype decision_reply =
  CallRaises error
  | NotJson
  | Parsed json

type_synonym curation_decision = "(string \<times> json) list"

definition get_curation_decision :: "decision_reply \<Rightarrow> error + curation_decision" where
  \<comment> \<open>The handler logs and re-raises.\<close>
  "get_curation_decision reply =
     (case reply of
        CallRaises err \<Rightarrow> Inl err
      | NotJson \<Rightarrow> Inl JSONDecodeError
      | Parsed v \<Rightarrow>
          (case v of
             JObject items \<Rightarrow>
               Inr (setdefault
                      (setdefault (setdefault items ''contexts_to_create'' (JArray []))
                         ''fragments_to_create'' (JArray []))
                      ''ids_to_delete'' (JArray []))
           | _ \<Rightarrow> Inl AttributeError))"

definition ids_to_delete :: "curation_decision \<Rightarrow> json" where
  "ids_to_delete decision = dict_get decision ''ids_to_delete'' (JArray [])"

definition contexts_to_create :: "curation_decision \<Rightarrow> json" where
  "contexts_to_create decision = dict_get decision ''contexts_to_create'' (JArray [])"

definition fragments_to_create :: "curation_decision \<Rightarrow> json" where
  "fragments_to_create decision = dict_get decision ''fragments_to_create'' (JArray [])"

record curation_result =
  created_fragment_ids :: "string list"
  created_context_ids :: "string list"
  deleted_ids :: json

subsection \<open>Applying a decision\<close>

text \<open>
  Step 1. \<^verbatim>\<open>memory_service.delete_fragments(ids_to_delete, project_id)\<close> with the value
  found in the decision. Neither layer lets an exception out. For a list of strings it
  is the batch delete of the memory service; for anything else the environment says
  which rows and points go.
\<close>

definition odd_delete :: "env \<Rightarrow> store \<Rightarrow> json \<Rightarrow> string \<Rightarrow> store" where
  "odd_delete e s ids project_id =
     (case odd_delete_rows e ids of
        None \<Rightarrow> s
      | Some rows \<Rightarrow>
          (let s1 = s\<lparr>fragments := filter (\<lambda>f. f_id f \<notin> set rows) (fragments s)\<rparr>
           in case get_or_create_collection e s1 project_id of
                (Inl err, s2) \<Rightarrow> s2
              | (Inr collection_name, s2) \<Rightarrow>
                  (case odd_delete_points e ids of
                     None \<Rightarrow> s2
                   | Some gone \<Rightarrow>
                       s2\<lparr>points := filter (\<lambda>(c, i). \<not> (c = collection_name \<and> i \<in> set gone))
                                       (points s2)\<rparr>)))"

definition delete_by_value :: "env \<Rightarrow> store \<Rightarrow> json \<Rightarrow> string \<Rightarrow> store" where
  "delete_by_value e s ids project_id =
     (case ids of
        JArray vs \<Rightarrow>
          (case strings_of vs of
             Some fragment_ids \<Rightarrow> snd (delete_fragments e s fragment_ids project_id)
           | None \<Rightarrow> odd_delete e s ids project_id)
      | _ \<Rightarrow> odd_delete e s ids project_id)"

definition context_map_of :: "memory_context list \<Rightarrow> (string \<rightharpoonup> string)" where
  \<comment> \<open>\<^verbatim>\<open>{ctx.name: ctx.id for ctx in existing_contexts}\<close>: a later context of the same
      name overrides an earlier one.\<close>
  "context_map_of existing_contexts =
     foldl (\<lambda>m ctx. m(c_name ctx \<mapsto> c_id ctx)) Map.empty existing_contexts"

text \<open>
  Step 2: one round of the loop over \<^verbatim>\<open>contexts_to_create\<close>, on the triple of
  \<^verbatim>\<open>context_map\<close>, \<^verbatim>\<open>created_context_ids\<close> and the store. \<^verbatim>\<open>context_data.get\<close> and the
  test \<^verbatim>\<open>name not in context_map\<close> stand outside the \<^verbatim>\<open>try\<close>: an entry that is not a
  dictionary, or a name that cannot be hashed, raises out of the loop and the call. Inside
  the \<^verbatim>\<open>try\<close>, \<^verbatim>\<open>MemoryContext\<close> rejects a name or a description that is not a string
  (the models are pydantic 2 models), after the identifier has been drawn; that exception
  is caught.
\<close>

definition create_context_step ::
  "env \<Rightarrow> string \<Rightarrow> (string \<rightharpoonup> string) \<times> string list \<times> store \<Rightarrow> json
     \<Rightarrow> error \<times> store + (string \<rightharpoonup> string) \<times> string list \<times> store" where
  "create_context_step e project_id st context_data =
     (case st of (context_map, created, s) \<Rightarrow>
        (case context_data of
           JObject items \<Rightarrow>
             (let name = dict_get items ''name'' JNull;
                  desc = dict_get items ''description'' JNull
              in if \<not> (json_truthy name \<and> json_truthy desc) then Inr st
                 else if \<not> hashable name then Inl (TypeError, s)
                 else
                   (case name of
                      JString n \<Rightarrow>
                        if n \<in> dom context_map then Inr st
                        else
                          (case desc of
                             JString d \<Rightarrow>
                               (case create_context e s project_id n d of
                                  (Inr new_context_id, s1) \<Rightarrow>
                                    Inr (context_map(n \<mapsto> new_context_id),
                                         created @ [new_context_id], s1)
                                | (Inl err, s1) \<Rightarrow> Inr (context_map, created, s1))
                           | _ \<Rightarrow>
                               Inr (context_map, created,
                                    s\<lparr>uuids_drawn := Suc (uuids_drawn s)\<rparr>))
                    | _ \<Rightarrow>
                        Inr (context_map, created, s\<lparr>uuids_drawn := Suc (uuids_drawn s)\<rparr>)))
         | _ \<Rightarrow> Inl (AttributeError, s)))"

primrec create_contexts ::
  "env \<Rightarrow> string \<Rightarrow> json list \<Rightarrow> (string \<rightharpoonup> string) \<times> string list \<times> store
     \<Rightarrow> error \<times> store + (string \<rightharpoonup> string) \<times> string list \<times> store" where
  "create_contexts e project_id [] st = Inr st"
| "create_contexts e project_id (context_data # rest) st =
     (case create_context_step e project_id st context_data of
        Inl failure \<Rightarrow> Inl failure
      | Inr st1 \<Rightarrow> create_contexts e project_id rest st1)"

text \<open>
  \<^verbatim>\<open>fragments_by_context\<close> is a \<^verbatim>\<open>defaultdict(list)\<close>: its items in the order the
  keys first appeared.
\<close>

definition add_to_group ::
  "(string \<times> string list) list \<Rightarrow> string \<Rightarrow> string \<Rightarrow> (string \<times> string list) list" where
  "add_to_group groups context_id new_id =
     (if context_id \<in> fst ` set groups
      then map (\<lambda>(k, v). if k = context_id then (k, v @ [new_id]) else (k, v)) groups
      else groups @ [(context_id, [new_id])])"

text \<open>
  Step 3: one round of the loop over \<^verbatim>\<open>fragments_to_create\<close>, on \<^verbatim>\<open>context_map\<close>,
  \<^verbatim>\<open>created_fragment_ids\<close>, \<^verbatim>\<open>fragments_by_context\<close> and the store. An entry that is not
  a dictionary is skipped. \<^verbatim>\<open>content.strip()\<close>, \<^verbatim>\<open>context_map.get(context_name)\<close> and
  the creation of the \<^verbatim>\<open>"general"\<close> context stand outside any \<^verbatim>\<open>try\<close>: a content that
  is not a string, a context name that cannot be hashed and a failure of that creation
  raise out of the loop and the call.
\<close>

record fragment_loop_state =
  ls_context_map :: "string \<rightharpoonup> string"
  ls_created :: "string list"
  ls_groups :: "(string \<times> string list) list"
  ls_store :: store

definition general_description :: string where
  "general_description =
     ''Contenedor para fragmentos sin un contexto espec'' @ [CHR 0xED] @ ''fico.''"

definition store_in_context ::
  "env \<Rightarrow> string \<Rightarrow> fragment_loop_state \<Rightarrow> string \<Rightarrow> string \<Rightarrow> fragment_loop_state" where
  \<comment> \<open>The guarded \<^verbatim>\<open>store_fragment\<close> call and the two appends after it.\<close>
  "store_in_context e project_id st content context_id =
     (case store_fragment e (ls_store st) project_id content ''general'' ''curated_ingestion''
             [context_id] of
        (Inr new_id, s1) \<Rightarrow>
          st\<lparr>ls_created := ls_created st @ [new_id],
             ls_groups := add_to_group (ls_groups st) context_id new_id,
             ls_store := s1\<rparr>
      | (Inl err, s1) \<Rightarrow> st\<lparr>ls_store := s1\<rparr>)"

definition store_resolved ::
  "env \<Rightarrow> string \<Rightarrow> fragment_loop_state \<Rightarrow> string \<Rightarrow> string option
     \<Rightarrow> error \<times> store + fragment_loop_state" where
  \<comment> \<open>From \<^verbatim>\<open>if not context_id:\<close> to the end of the round.\<close>
  "store_resolved e project_id st content context_id =
     (if truthy context_id then
        Inr (store_in_context e project_id st content (the_default [] context_id))
      else
        (case ls_context_map st ''general'' of
           Some general_id \<Rightarrow> Inr (store_in_context e project_id st content general_id)
         | None \<Rightarrow>
             (case create_context e (ls_store st) project_id ''general'' general_description of
                (Inl err, s1) \<Rightarrow> Inl (err, s1)
              | (Inr general_id, s1) \<Rightarrow>
                  Inr (store_in_context e project_id
                         (st\<lparr>ls_context_map := (ls_context_map st)(''general'' \<mapsto> general_id),
                             ls_store := s1\<rparr>)
                         content general_id))))"

definition create_fragment_step ::
  "env \<Rightarrow> string \<Rightarrow> fragment_loop_state \<Rightarrow> json \<Rightarrow> error \<times> store + fragment_loop_state" where
  "create_fragment_step e project_id st fragment_data =
     (case fragment_data of
        JObject items \<Rightarrow>
          (let content = dict_get items ''content'' JNull;
               context_name = dict_get items ''context_name'' JNull
           in if \<not> json_truthy content then Inr st
              else
                (case content of
                   JString text \<Rightarrow>
                     if strip text = [] \<or> \<not> json_truthy context_name then Inr st
                     else if \<not> hashable context_name then Inl (TypeError, ls_store st)
                     else
                       store_resolved e project_id st text
                         (case context_name of
                            JString n \<Rightarrow> ls_context_map st n
                          | _ \<Rightarrow> None)
                 | _ \<Rightarrow> Inl (AttributeError, ls_store st)))
      | _ \<Rightarrow> Inr st)"

primrec create_fragments ::
  "env \<Rightarrow> string \<Rightarrow> json list \<Rightarrow> fragment_loop_state
     \<Rightarrow> error \<times> store + fragment_loop_state" where
  "create_fragments e project_id [] st = Inr st"
| "create_fragments e project_id (fragment_data # rest) st =
     (case create_fragment_step e project_id st fragment_data of
        Inl failure \<Rightarrow> Inl failure
      | Inr st1 \<Rightarrow> create_fragments e project_id rest st1)"

text \<open>
  Step 4: one round of the loop over the items of \<^verbatim>\<open>fragments_by_context\<close>.
  \<^verbatim>\<open>list(set(xs))\<close> lists the distinct elements of \<^verbatim>\<open>xs\<close> in an order Python does not
  specify; \<open>remdups\<close> fixes one.
\<close>

definition update_context_membership :: "env \<Rightarrow> store \<Rightarrow> string \<times> string list \<Rightarrow> store" where
  "update_context_membership e s item =
     (case item of (context_id, new_fragment_ids) \<Rightarrow>
        if new_fragment_ids = [] then s
        else
          (case storage_get_context e s context_id of
             None \<Rightarrow> s
           | Some ctx \<Rightarrow>
               snd (storage_update_context_fragments e s context_id
                      (remdups (c_fragment_ids ctx @ new_fragment_ids)))))"

definition update_memberships :: "env \<Rightarrow> store \<Rightarrow> (string \<times> string list) list \<Rightarrow> store" where
  "update_memberships e s groups = foldl (update_context_membership e) s groups"

text \<open>
  Steps 1 to 3 of \<^verbatim>\<open>_apply_curation_decision\<close>, up to the comment
  \<^verbatim>\<open># 4. Update contexts with their new fragments\<close>. Each step runs only on a true value
  (\<^verbatim>\<open>if ids_to_delete:\<close> and so on). Step 1 formats \<^verbatim>\<open>len(ids_to_delete)\<close> into its log
  line before the delete, and the two loops iterate over whatever value they find.
\<close>

definition delete_step :: "env \<Rightarrow> store \<Rightarrow> json \<Rightarrow> string \<Rightarrow> error \<times> store + store" where
  "delete_step e s ids project_id =
     (if \<not> json_truthy ids then Inr s
      else if \<not> has_len ids then Inl (TypeError, s)
      else Inr (delete_by_value e s ids project_id))"

definition create_contexts_step ::
  "env \<Rightarrow> string \<Rightarrow> json \<Rightarrow> (string \<rightharpoonup> string) \<times> string list \<times> store
     \<Rightarrow> error \<times> store + (string \<rightharpoonup> string) \<times> string list \<times> store" where
  "create_contexts_step e project_id entries st =
     (if \<not> json_truthy entries then Inr st
      else
        (case py_iter entries of
           Inl err \<Rightarrow> Inl (err, snd (snd st))
         | Inr context_datas \<Rightarrow> create_contexts e project_id context_datas st))"

definition create_fragments_step ::
  "env \<Rightarrow> string \<Rightarrow> json \<Rightarrow> fragment_loop_state \<Rightarrow> error \<times> store + fragment_loop_state" where
  "create_fragments_step e project_id entries st =
     (if \<not> json_truthy entries then Inr st
      else
        (case py_iter entries of
           Inl err \<Rightarrow> Inl (err, ls_store st)
         | Inr fragment_datas \<Rightarrow> create_fragments e project_id fragment_datas st))"

definition create_phase ::
  "env \<Rightarrow> store \<Rightarrow> curation_decision \<Rightarrow> string \<Rightarrow> memory_context list
     \<Rightarrow> error \<times> store + string list \<times> fragment_loop_state" where
  "create_phase e s decision project_id existing_contexts =
     (case delete_step e s (ids_to_delete decision) project_id of
        Inl failure \<Rightarrow> Inl failure
      | Inr s1 \<Rightarrow>
          (case create_contexts_step e project_id (contexts_to_create decision)
                  (context_map_of existing_contexts, [], s1) of
             Inl failure \<Rightarrow> Inl failure
           | Inr (context_map, new_context_ids, s2) \<Rightarrow>
               (case create_fragments_step e project_id (fragments_to_create decision)
                       \<lparr>ls_context_map = context_map, ls_created = [], ls_groups = [],
                        ls_store = s2\<rparr> of
                  Inl failure \<Rightarrow> Inl failure
                | Inr st \<Rightarrow> Inr (new_context_ids, st))))"

definition apply_curation_decision ::
  "env \<Rightarrow> store \<Rightarrow> curation_decision \<Rightarrow> string \<Rightarrow> memory_context list
     \<Rightarrow> (error + curation_result) \<times> store" where
  "apply_curation_decision e s decision project_id existing_contexts =
     (case create_phase e s decision project_id existing_contexts of
        Inl (err, s1) \<Rightarrow> (Inl err, s1)
      | Inr (new_context_ids, st) \<Rightarrow>
          (Inr \<lparr>created_fragment_ids = ls_created st,
                created_context_ids = new_context_ids,
                deleted_ids = ids_to_delete decision\<rparr>,
           update_memberships e (ls_store st) (ls_groups st)))"

subsection \<open>The whole call\<close>

text \<open>
  Steps 1 and 1b of \<^verbatim>\<open>curate_and_chunk\<close>: the similar fragments and the existing
  contexts, each under its own \<^verbatim>\<open>try\<close>. The listing of the storage layer answers \<open>[]\<close>
  on a failure of its own, so the second handler has nothing to catch. \<open>curation_reply\<close>
  is the generative client on the prompt built from the content, the similar fragments
  and the existing contexts. After the decision is applied the closing log line takes
  \<^verbatim>\<open>len\<close> of the three lists of the result, \<^verbatim>\<open>deleted_ids\<close> among them.
\<close>

definition curation_inputs ::
  "env \<Rightarrow> store \<Rightarrow> string \<Rightarrow> string \<Rightarrow> search_result list \<times> memory_context list \<times> store" where
  "curation_inputs e s content project_id =
     (case (case generate_embedding e content of
              Inl err \<Rightarrow> ([], s)
            | Inr embedding \<Rightarrow>
                (case search_memory_by_vector e s embedding project_id of
                   (Inl err, s1) \<Rightarrow> ([], s1)
                 | (Inr found, s1) \<Rightarrow> (found, s1))) of
        (relevant_fragments, s1) \<Rightarrow>
          (relevant_fragments, storage_list_contexts_by_project e s1 project_id, s1))"

definition curate_and_chunk ::
  "env \<Rightarrow> (string \<Rightarrow> search_result list \<Rightarrow> memory_context list \<Rightarrow> decision_reply) \<Rightarrow> store
     \<Rightarrow> string \<Rightarrow> string \<Rightarrow> (error + curation_result) \<times> store" where
  "curate_and_chunk e curation_reply s content project_id =
     (case curation_inputs e s content project_id of
        (relevant_fragments, existing_contexts, s1) \<Rightarrow>
          (case get_curation_decision
                  (curation_reply content relevant_fragments existing_contexts) of
             Inl err \<Rightarrow> (Inl err, s1)
           | Inr decision \<Rightarrow>
               (case apply_curation_decision e s1 decision project_id existing_contexts of
                  (Inl err, s2) \<Rightarrow> (Inl err, s2)
                | (Inr result, s2) \<Rightarrow>
                    if has_len (deleted_ids result) then (Inr result, s2)
                    else (Inl TypeError, s2))))"

text \<open>
  A decision has the types of the response schema when its three values are arrays, the
  ids are strings, and the entries of the other two are objects whose \<^verbatim>\<open>name\<close> and
  \<^verbatim>\<open>description\<close>, respectively \<^verbatim>\<open>content\<close> and \<^verbatim>\<open>context_name\<close>, are strings where
  present.
\<close>

definition typed_entry :: "string \<Rightarrow> string \<Rightarrow> json \<Rightarrow> bool" where
  "typed_entry key1 key2 v =
     (case v of
        JObject items \<Rightarrow>
          (case map_of items key1 of None \<Rightarrow> True | Some x \<Rightarrow> is_string x)
          \<and> (case map_of items key2 of None \<Rightarrow> True | Some x \<Rightarrow> is_string x)
      | _ \<Rightarrow> False)"

definition typed_entries :: "string \<Rightarrow> string \<Rightarrow> json \<Rightarrow> bool" where
  "typed_entries key1 key2 v =
     (case v of JArray entries \<Rightarrow> list_all (typed_entry key1 key2) entries | _ \<Rightarrow> False)"

definition schema_typed :: "curation_decision \<Rightarrow> bool" where
  "schema_typed decision =
     ((case ids_to_delete decision of JArray ids \<Rightarrow> list_all is_string ids | _ \<Rightarrow> False)
      \<and> typed_entries ''name'' ''description'' (contexts_to_create decision)
      \<and> typed_entries ''content'' ''context_name'' (fragments_to_create decision))"

section \<open>Synthesizer (src/mcp/intelligence/synthesis.py)\<close>

text \<open>The synthesizer returns a JSON value.\<close>

definition set_item :: "json \<Rightarrow> string \<Rightarrow> json \<Rightarrow> error + json" where
  \<comment> \<open>\<^verbatim>\<open>value[key] = v\<close> with a string key: an assignment on a dictionary, a
      \<^verbatim>\<open>TypeError\<close> on anything else \<^verbatim>\<open>json.loads\<close> can return.\<close>
  "set_item value key v =
     (case value of
        JObject items \<Rightarrow>
          Inr (JObject (if key \<in> fst ` set items
                        then map (\<lambda>(k, old). if k = key then (k, v) else (k, old)) items
                        else items @ [(key, v)]))
      | _ \<Rightarrow> Inl TypeError)"

text \<open>
  A prompt is represented by the data it is formatted from: the query and, for the
  contextual prompt, every project with its name and description and every context with
  its name, its description and its hits; for the legacy prompt, the flat list of hits.
  The generative client is the argument \<open>generate\<close>: it raises, or answers a response
  whose text may be \<^verbatim>\<open>None\<close>. \<open>json_loads\<close> is \<^verbatim>\<open>json.loads\<close>.
\<close>

type_synonym rendered_context = "string \<times> string \<times> string \<times> search_result list"

type_synonym rendered_project = "string \<times> string \<times> string \<times> rendered_context list"

datatype prompt =
  ContextualPrompt string "rendered_project list"
  | LegacyPrompt string "search_result list"

definition render_context ::
  "env \<Rightarrow> store \<Rightarrow> string \<times> search_result list \<Rightarrow> rendered_context" where
  "render_context e s item =
     (case item of (context_id, search_results_list) \<Rightarrow>
        (case storage_get_context e s context_id of
           Some ctx \<Rightarrow> (context_id, c_name ctx, c_description ctx, search_results_list)
         | None \<Rightarrow> (context_id, context_id, ''No description available.'', search_results_list)))"

definition render_project ::
  "env \<Rightarrow> store \<Rightarrow> string \<times> (string \<times> search_result list) list \<Rightarrow> rendered_project" where
  "render_project e s item =
     (case item of (project_id, contexts_data) \<Rightarrow>
        (case storage_get_project e s project_id of
           Some proj \<Rightarrow>
             (project_id, pr_name proj, pr_description proj, map (render_context e s) contexts_data)
         | None \<Rightarrow>
             (project_id, project_id, ''No description available.'',
              map (render_context e s) contexts_data)))"

text \<open>\<^verbatim>\<open>str(n)\<close> for a length.\<close>

fun str_nat :: "nat \<Rightarrow> string" where
  "str_nat n =
     (if n < 10 then [char_of (48 + n)] else str_nat (n div 10) @ [char_of (48 + n mod 10)])"

definition fallback_response :: "string \<Rightarrow> nat \<Rightarrow> json" where
  "fallback_response query count =
     JObject
       [(''synthesized_response'',
         JString (''Found '' @ str_nat count @ '' relevant fragments related to '' @ [CHR 0x27]
                  @ query @ [CHR 0x27] @ ''. ''
                  @ ''Manual review recommended due to synthesis processing limitations.'')),
        (''confidence'', JNumber 0.3),
        (''information_coverage'', JString ''partial''),
        (''gaps'', JArray [JString ''synthesis processing error'']),
        (''patterns_identified'', JArray []),
        (''fragments_relevance'', JObject [])]"

definition response_text :: "error + string option \<Rightarrow> error + string" where
  \<comment> \<open>\<^verbatim>\<open>response.text.strip()\<close>.\<close>
  "response_text response =
     (case response of
        Inl err \<Rightarrow> Inl err
      | Inr None \<Rightarrow> Inl AttributeError
      | Inr (Some text) \<Rightarrow> Inr (strip text))"

definition legacy_attempt ::
  "(prompt \<Rightarrow> error + string option) \<Rightarrow> (string \<Rightarrow> error + json) \<Rightarrow> string
     \<Rightarrow> search_result list \<Rightarrow> error + json" where
  \<comment> \<open>The body of the \<^verbatim>\<open>try\<close> of \<^verbatim>\<open>synthesize_legacy\<close>.\<close>
  "legacy_attempt generate json_loads query hits =
     (case response_text (generate (LegacyPrompt query hits)) of
        Inl err \<Rightarrow> Inl err
      | Inr synthesis_text \<Rightarrow> json_loads (extract_json synthesis_text))"

definition synthesize_legacy ::
  "(prompt \<Rightarrow> error + string option) \<Rightarrow> (string \<Rightarrow> error + json) \<Rightarrow> string
     \<Rightarrow> search_result list \<Rightarrow> error + json" where
  "synthesize_legacy generate json_loads query hits =
     (case legacy_attempt generate json_loads query hits of
        Inr synthesis \<Rightarrow> Inr synthesis
      | Inl err \<Rightarrow> Inr (fallback_response query (length hits)))"

definition contextual_attempt ::
  "env \<Rightarrow> store \<Rightarrow> (prompt \<Rightarrow> error + string option) \<Rightarrow> (string \<Rightarrow> error + json) \<Rightarrow> string
     \<Rightarrow> (string \<times> (string \<times> search_result list) list) list \<Rightarrow> error + json" where
  \<comment> \<open>The body of the \<^verbatim>\<open>try\<close> of \<^verbatim>\<open>synthesize_contextual\<close>; \<^verbatim>\<open>all_contexts_info\<close> has
      one entry for each context id met.\<close>
  "contextual_attempt e s generate json_loads query grouped =
     (case response_text
             (generate (ContextualPrompt query (map (render_project e s) grouped))) of
        Inl err \<Rightarrow> Inl err
      | Inr synthesis_text \<Rightarrow>
          (case json_loads (extract_json synthesis_text) of
             Inl err \<Rightarrow> Inl err
           | Inr synthesis \<Rightarrow>
               (case set_item synthesis ''synthesis_type'' (JString ''contextual'') of
                  Inl err \<Rightarrow> Inl err
                | Inr synthesis1 \<Rightarrow>
                    (case set_item synthesis1 ''projects_used''
                            (JNumber (real (length grouped))) of
                       Inl err \<Rightarrow> Inl err
                     | Inr synthesis2 \<Rightarrow>
                         set_item synthesis2 ''contexts_used''
                           (JNumber (real (length (remdups
                              (concat (map (\<lambda>item. map fst (snd item)) grouped))))))))))"

definition flatten_grouped ::
  "(string \<times> (string \<times> search_result list) list) list \<Rightarrow> search_result list" where
  "flatten_grouped grouped = concat (map (\<lambda>item. concat (map snd (snd item))) grouped)"

definition synthesize_contextual ::
  "env \<Rightarrow> store \<Rightarrow> (prompt \<Rightarrow> error + string option) \<Rightarrow> (string \<Rightarrow> error + json) \<Rightarrow> string
     \<Rightarrow> (string \<times> (string \<times> search_result list) list) list \<Rightarrow> error + json" where
  "synthesize_contextual e s generate json_loads query grouped =
     (case contextual_attempt e s generate json_loads query grouped of
        Inr synthesis \<Rightarrow> Inr synthesis
      | Inl err \<Rightarrow> synthesize_legacy generate json_loads query (flatten_grouped grouped))"

text \<open>Two stores hold the same data when they differ at most in the Qdrant collections
  that exist.\<close>

definition same_data :: "store \<Rightarrow> store \<Rightarrow> bool" where
  "same_data s s' =
     (fragments s' = fragments s \<and> contexts s' = contexts s \<and> points s' = points s
      \<and> uuids_drawn s' = uuids_drawn s)"

text \<open>The invariant of \<^verbatim>\<open>fragments_by_context\<close>: a dictionary (no key twice) whose lists
  are never empty.\<close>

definition groups_ok :: "(string \<times> string list) list \<Rightarrow> bool" where
  "groups_ok groups = (distinct (map fst groups) \<and> list_all (\<lambda>g. snd g \<noteq> []) groups)"

subsection \<open>A small world for the examples\<close>

text \<open>
  An environment in which nothing fails and nothing is found, a project \<^verbatim>\<open>p\<close> with one
  context \<^verbatim>\<open>notes\<close> holding one fragment, and a decision that files one new fragment
  under \<^verbatim>\<open>notes\<close>.
\<close>

definition no_faults :: env where
  "no_faults =
     \<lparr>sqlite_fails = (\<lambda>op. False), qdrant_fails = (\<lambda>op. False),
      embedding_of = (\<lambda>text. Inr []), qdrant_hits = (\<lambda>collection v. []),
      uuid4 = (\<lambda>n. ''id'' @ replicate n (CHR ''+'')), max_content_length = 10000,
      odd_delete_rows = (\<lambda>v. None), odd_delete_points = (\<lambda>v. None)\<rparr>"

definition notes_store :: store where
  "notes_store =
     \<lparr>projects = [], fragments = [\<lparr>f_id = ''f1'', f_project_id = ''p'', f_content = ''old text'',
                     f_category = ''general'', f_tags = [], f_source = ''user'',
                     f_context_ids = [''c1'']\<rparr>],
      contexts = [\<lparr>c_id = ''c1'', c_project_id = ''p'', c_name = ''notes'',
                    c_description = ''notes'', c_fragment_ids = [''f1'']\<rparr>],
      collections = [], points = [(''project_p'', ''f1'')], uuids_drawn = 0\<rparr>"

definition one_fragment :: decision_reply where
  "one_fragment =
     Parsed (JObject
       [(''fragments_to_create'',
         JArray [JObject [(''content'', JString ''new text''),
                          (''context_name'', JString ''notes'')]])])"

text \<open>A hit on the one fragment of the example store.\<close>

definition notes_hit :: search_result where
  "notes_hit =
     \<lparr>sr_fragment = \<lparr>f_id = ''f1'', f_project_id = ''p'', f_content = ''old text'',
                     f_category = ''general'', f_tags = [], f_source = ''user'',
                     f_context_ids = [''c1'']\<rparr>,
      sr_similarity = 1, sr_context = None\<rparr>"

text \<open>A hit of project \<^verbatim>\<open>p1\<close> on a fragment with a given id and given context ids.\<close>

definition hit_on :: "string \<Rightarrow> string list \<Rightarrow> search_result" where
  "hit_on fragment_id context_ids =
     \<lparr>sr_fragment = \<lparr>f_id = fragment_id, f_project_id = ''p1'', f_content = ''x'',
                     f_category = ''general'', f_tags = [], f_source = ''user'',
                     f_context_ids = context_ids\<rparr>,
      sr_similarity = 1, sr_context = None\<rparr>"

text \<open>
  A project \<^verbatim>\<open>p\<close> with three contexts, the last two of which both match the name
  \<^verbatim>\<open>Project Planning\<close>.
\<close>

definition planning_contexts :: "memory_context list" where
  "planning_contexts =
     [\<lparr>c_id = ''c0'', c_project_id = ''p'', c_name = ''billing'',
       c_description = ''invoices'', c_fragment_ids = []\<rparr>,
      \<lparr>c_id = ''c1'', c_project_id = ''p'', c_name = ''project_planning'',
       c_description = ''plans'', c_fragment_ids = []\<rparr>,
      \<lparr>c_id = ''c2'', c_project_id = ''p'', c_name = ''Project-Planning'',
       c_description = ''more plans'', c_fragment_ids = []\<rparr>]"

definition planning_store :: store where
  "planning_store =
     \<lparr>projects = [], fragments = [], contexts = planning_contexts,
      collections = [], points = [], uuids_drawn = 0\<rparr>"

section \<open>Properties of the embedding cache\<close>

lemma ttl_cache_set [simp]: "ttl (cache_set md5 now c text model v) = ttl c"
  by (simp add: cache_set_def Let_def)

lemma cache_set_entry:
  "cache (cache_set md5 now c text model v) (generate_key md5 text model) = Some v"
  "timestamps (cache_set md5 now c text model v) (generate_key md5 text model) = Some now"
  by (simp_all add: cache_set_def Let_def)

lemma cache_set_other:
  "k \<noteq> generate_key md5 text model \<Longrightarrow>
     cache (cache_set md5 now c text model v) k = cache c k \<and>
     timestamps (cache_set md5 now c text model v) k = timestamps c k"
  by (simp add: cache_set_def Let_def)

lemma cache_get_fresh:
  assumes "cache c (generate_key md5 text model) = Some v"
    and "timestamps c (generate_key md5 text model) = Some stamp"
    and "now - stamp < ttl c"
  shows "cache_get md5 now c text model = (Some v, c)"
  using assms by (simp add: cache_get_def Let_def is_valid_def dom_def)

lemma cache_get_expired:
  assumes "cache c (generate_key md5 text model) = Some v"
    and "timestamps c (generate_key md5 text model) = Some stamp"
    and "ttl c \<le> now - stamp"
  shows "cache_get md5 now c text model = (None, remove c (generate_key md5 text model))"
  using assms by (simp add: cache_get_def Let_def is_valid_def dom_def)

lemma cache_get_other:
  "k \<noteq> generate_key md5 text model \<Longrightarrow>
     cache (snd (cache_get md5 now c text model)) k = cache c k \<and>
     timestamps (snd (cache_get md5 now c text model)) k = timestamps c k"
  by (simp add: cache_get_def Let_def remove_def)

text \<open>
  Claim C8. Storing a vector and reading it back before the time-to-live has elapsed
  returns the vector and leaves the cache as it is; reading it once
  \<open>now - inserted_at \<ge> ttl\<close> returns nothing and drops the key from both dictionaries;
  neither operation ever touches an entry stored under another key, so nothing is
  evicted for size.
\<close>

theorem embedding_cache_roundtrip_expiry:
  fixes c :: "'v embedding_cache"
  shows
    "(t1 - t0 < ttl c \<longrightarrow>
        cache_get md5 t1 (cache_set md5 t0 c text model v) text model
          = (Some v, cache_set md5 t0 c text model v))
     \<and> (ttl c \<le> t1 - t0 \<longrightarrow>
        fst (cache_get md5 t1 (cache_set md5 t0 c text model v) text model) = None
        \<and> cache (snd (cache_get md5 t1 (cache_set md5 t0 c text model v) text model))
            (generate_key md5 text model) = None
        \<and> timestamps (snd (cache_get md5 t1 (cache_set md5 t0 c text model v) text model))
            (generate_key md5 text model) = None)
     \<and> (\<forall>k. k \<noteq> generate_key md5 text model \<longrightarrow>
        cache (cache_set md5 t0 c text model v) k = cache c k
        \<and> timestamps (cache_set md5 t0 c text model v) k = timestamps c k
        \<and> cache (snd (cache_get md5 t1 c text model)) k = cache c k
        \<and> timestamps (snd (cache_get md5 t1 c text model)) k = timestamps c k)"
proof (intro conjI impI allI)
  assume "t1 - t0 < ttl c"
  then show "cache_get md5 t1 (cache_set md5 t0 c text model v) text model
               = (Some v, cache_set md5 t0 c text model v)"
    by (intro cache_get_fresh [where stamp = t0]) (simp_all add: cache_set_entry)
next
  assume old: "ttl c \<le> t1 - t0"
  have gone: "cache_get md5 t1 (cache_set md5 t0 c text model v) text model
      = (None, remove (cache_set md5 t0 c text model v) (generate_key md5 text model))"
    using old by (intro cache_get_expired [where stamp = t0]) (simp_all add: cache_set_entry)
  show "fst (cache_get md5 t1 (cache_set md5 t0 c text model v) text model) = None"
    by (simp add: gone)
  show "cache (snd (cache_get md5 t1 (cache_set md5 t0 c text model v) text model))
          (generate_key md5 text model) = None"
    by (simp add: gone remove_def)
  show "timestamps (snd (cache_get md5 t1 (cache_set md5 t0 c text model v) text model))
          (generate_key md5 text model) = None"
    by (simp add: gone remove_def)
next
  fix k assume "k \<noteq> generate_key md5 text model"
  then show "cache (cache_set md5 t0 c text model v) k = cache c k"
    "timestamps (cache_set md5 t0 c text model v) k = timestamps c k"
    "cache (snd (cache_get md5 t1 c text model)) k = cache c k"
    "timestamps (snd (cache_get md5 t1 c text model)) k = timestamps c k"
    by (simp_all add: cache_set_other cache_get_other)
qed

theorem embedding_cache_roundtrip_expiry_witness:
  "fst (cache_get id 0 (cache_set id 0 (EmbeddingCache 24) ''hello'' ''m1'' [1, 2 :: int])
          ''hello'' ''m1'') = Some [1, 2]
   \<and> fst (cache_get id 86400000000 (cache_set id 0 (EmbeddingCache 24) ''hello'' ''m1'' [1, 2 :: int])
          ''hello'' ''m1'') = None
   \<and> cache (snd (cache_get id 86400000000
          (cache_set id 0 (EmbeddingCache 24) ''hello'' ''m1'' [1, 2 :: int]) ''hello'' ''m1''))
        (generate_key id ''hello'' ''m1'') = None
   \<and> cache (cache_set id 0 (cache_set id 0 (EmbeddingCache 24) ''other'' ''m1'' [7 :: int])
          ''hello'' ''m1'' [1, 2]) (generate_key id ''other'' ''m1'') = Some [7]"
  using embedding_cache_roundtrip_expiry
    [of 0 0 "EmbeddingCache 24 :: int list embedding_cache" id "''hello''" "''m1''" "[1, 2]"]
    embedding_cache_roundtrip_expiry
    [of 86400000000 0 "EmbeddingCache 24 :: int list embedding_cache" id "''hello''" "''m1''" "[1, 2]"]
    embedding_cache_roundtrip_expiry
    [of 0 0 "cache_set id 0 (EmbeddingCache 24) ''other'' ''m1'' [7 :: int]" id "''hello''" "''m1''" "[1, 2]"]
  by (simp add: EmbeddingCache_def generate_key_def cache_set_def Let_def)

section \<open>Properties of grouped recall\<close>

lemma group_by_context_lookup:
  "group_by_context g hits k =
     (case g k of
        None \<Rightarrow> if bucket_of hits k = [] then None else Some (bucket_of hits k)
      | Some bucket \<Rightarrow> Some (bucket @ bucket_of hits k))"
proof (induction hits arbitrary: g)
  case Nil
  show ?case by (simp add: bucket_of_def split: option.splits)
next
  case (Cons sr hits)
  show ?case
  proof (cases "g (group_key sr)")
    case None
    then show ?thesis
      by (auto simp: Cons.IH bucket_of_def split: option.splits)
  next
    case (Some bucket)
    then show ?thesis
      by (auto simp: Cons.IH bucket_of_def split: option.splits)
  qed
qed

lemma group_by_context_empty:
  "group_by_context Map.empty hits =
     (\<lambda>k. if bucket_of hits k = [] then None else Some (bucket_of hits k))"
  by (rule ext) (simp add: group_by_context_lookup)

lemma search_projects_result:
  assumes "\<forall>p \<in> set ps. search p = Inr (hits p)"
  shows "search_projects search grouped ps =
     Inr (\<lambda>p. if p \<in> set ps \<and> hits p \<noteq> []
               then Some (group_by_context Map.empty (hits p)) else grouped p)"
  using assms
proof (induction ps arbitrary: grouped)
  case Nil
  show ?case by simp
next
  case (Cons q ps)
  have q: "search q = Inr (hits q)" and rest: "\<forall>p \<in> set ps. search p = Inr (hits p)"
    using Cons.prems by simp_all
  show ?case
  proof (cases "hits q = []")
    case True
    then show ?thesis
      by (auto simp: q Cons.IH [OF rest])
  next
    case False
    then show ?thesis
      by (auto simp: q Cons.IH [OF rest])
  qed
qed

lemma bucket_of_first_context:
  "bucket_of hits k =
     filter (\<lambda>sr. (if f_context_ids (sr_fragment sr) = [] then ''unassigned''
                    else hd (f_context_ids (sr_fragment sr))) = k) hits"
proof -
  have "group_key sr = (if f_context_ids (sr_fragment sr) = [] then ''unassigned''
                        else hd (f_context_ids (sr_fragment sr)))" for sr
    by (cases "f_context_ids (sr_fragment sr)") (simp_all add: group_key_def)
  then show ?thesis
    by (simp add: bucket_of_def)
qed

text \<open>
  Claim C7. When the query embeds and every per-project search answers, the result of
  \<open>search_memory\<close> is exactly this mapping: a project has a key if and only if it is
  a target with at least one hit, and under that key a context id \<open>k\<close> has a key if and
  only if some hit of the project has \<open>k\<close> as the first of its fragment's context ids,
  where a fragment without context ids counts as having \<^verbatim>\<open>"unassigned"\<close> first; the
  bucket is then the list of those hits, in search order. So every hit is in the bucket
  of its project and first context, and no empty project or context group exists.
\<close>

theorem search_memory_grouping:
  assumes "resolve_targets all_projects project_ids default_project_id = Inr targets"
    and "embed_query query = Inr v"
    and "\<forall>p \<in> set targets. search_in v p = Inr (hits p)"
  shows "search_memory all_projects embed_query search_in query project_ids
           default_project_id =
     Inr (\<lambda>p. if p \<in> set targets \<and> hits p \<noteq> []
               then Some (\<lambda>k.
                 if filter (\<lambda>sr. (if f_context_ids (sr_fragment sr) = [] then ''unassigned''
                                   else hd (f_context_ids (sr_fragment sr))) = k) (hits p) = []
                 then None
                 else Some (filter (\<lambda>sr. (if f_context_ids (sr_fragment sr) = []
                                            then ''unassigned''
                                            else hd (f_context_ids (sr_fragment sr))) = k)
                              (hits p)))
               else None)"
proof -
  have "search_projects (search_in v) Map.empty targets =
     Inr (\<lambda>p. if p \<in> set targets \<and> hits p \<noteq> []
               then Some (group_by_context Map.empty (hits p)) else None)"
    using assms(3) by (rule search_projects_result)
  then show ?thesis
    using assms(1,2)
    by (simp add: search_memory_def group_by_context_empty bucket_of_first_context
        cong: if_cong)
qed

theorem search_memory_grouping_witness:
  "\<exists>g m. search_memory [] (\<lambda>q. Inr [0 :: int])
        (\<lambda>v p. Inr (if p = ''p1''
                     then [hit_on ''f1'' [''c1'', ''c2''], hit_on ''f2'' [],
                           hit_on ''f3'' [''c2''], hit_on ''f4'' [''c1'']]
                     else []))
        ''x'' (Projects [''p1'', ''p2'']) None = Inr g
      \<and> g ''p1'' = Some m
      \<and> m ''c1'' = Some [hit_on ''f1'' [''c1'', ''c2''], hit_on ''f4'' [''c1'']]
      \<and> m ''c2'' = Some [hit_on ''f3'' [''c2'']]
      \<and> m ''unassigned'' = Some [hit_on ''f2'' []]
      \<and> m ''c3'' = None
      \<and> g ''p2'' = None"
proof -
  let ?hits = "\<lambda>p. if p = ''p1''
                     then [hit_on ''f1'' [''c1'', ''c2''], hit_on ''f2'' [],
                           hit_on ''f3'' [''c2''], hit_on ''f4'' [''c1'']]
                     else []"
  have targets: "resolve_targets [] (Projects [''p1'', ''p2'']) None = Inr [''p1'', ''p2'']"
    by (simp add: resolve_targets_def)
  have answers: "\<forall>p \<in> set [''p1'', ''p2'']. (\<lambda>v p. Inr (?hits p)) [0 :: int] p = Inr (?hits p)"
    by simp
  show ?thesis
    using search_memory_grouping
      [of "[]" "Projects [''p1'', ''p2'']" None "[''p1'', ''p2'']" "\<lambda>q. Inr [0 :: int]" "''x''"
          "[0]" "\<lambda>v p. Inr (?hits p)" ?hits, OF targets _ answers]
    by (simp add: hit_on_def)
qed

section \<open>Properties of the fallback splitter\<close>


lemma split_from_nonempty: "split_from cur s \<noteq> []"
  by (induction cur s rule: split_from.induct) auto

lemma join_Cons: "xs \<noteq> [] \<Longrightarrow> join sep (x # xs) = x @ sep @ join sep xs"
  by (cases xs) (simp_all add: join_def)

lemma join_append:
  "xs \<noteq> [] \<Longrightarrow> join sep (xs @ ys) = join sep xs @ concat (map (\<lambda>q. sep @ q) ys)"
  by (cases xs) (simp_all add: join_def)

lemma join_snoc_append: "join sep (xs @ [x @ y]) = join sep (xs @ [x]) @ y"
  by (cases xs) (simp_all add: join_def)

lemma join_split_from: "join ''. '' (split_from cur s) = cur @ s"
proof (induction cur s rule: split_from.induct)
  case (1 cur)
  show ?case by (simp add: join_def)
next
  case (2 cur c)
  show ?case by (simp add: join_def)
next
  case (3 cur c d cs)
  show ?case
  proof (cases "c = CHR ''.'' \<and> d = CHR '' ''")
    case True
    then show ?thesis
      using 3 by (simp add: join_Cons split_from_nonempty)
  next
    case False
    then show ?thesis using 3 by auto
  qed
qed

lemma join_split_sentences: "join ''. '' (split_sentences s) = s"
  by (simp add: split_sentences_def join_split_from)

lemma strip_clean: "clean s \<Longrightarrow> strip s = s"
proof -
  assume c: "clean s"
  then have "dropWhile is_space s = s"
    by (cases s) (simp_all add: clean_def)
  moreover have "dropWhile is_space (rev s) = rev s"
    using c by (cases "rev s") (auto simp: clean_def last_rev hd_rev dest: arg_cong [where f = hd])
  ultimately show ?thesis by (simp add: strip_def)
qed

lemma clean_append: "clean a \<Longrightarrow> clean b \<Longrightarrow> clean (a @ sep @ b)"
  by (auto simp: clean_def)


lemma fallback_loop_join:
  assumes "\<forall>s \<in> set ss. clean s" and "clean cur"
    and "fallback_loop m (chunks, cur) ss = (chunks', cur')"
  shows "clean cur' \<and>
     join ''. '' (map ch_content chunks' @ [cur']) =
       join ''. '' (map ch_content chunks @ [cur]) @ concat (map (\<lambda>q. ''. '' @ q) ss)"
  using assms
proof (induction ss arbitrary: chunks cur)
  case Nil
  then show ?case by simp
next
  case (Cons s ss)
  have s: "clean s" and rest: "\<forall>s \<in> set ss. clean s" using Cons.prems(1) by simp_all
  have ne: "cur \<noteq> []" using Cons.prems(2) by (simp add: clean_def)
  show ?case
  proof (cases "int (length (split_ws (cur @ ''. '' @ s))) > m")
    case True
    then have step: "fallback_step m (chunks, cur) s = (chunks @ [fallback_chunk cur], s)"
      using ne by (simp add: fallback_step_def)
    have run: "fallback_loop m (chunks @ [fallback_chunk cur], s) ss = (chunks', cur')"
      using Cons.prems(3) by (simp add: step)
    have content: "ch_content (fallback_chunk cur) = cur"
      using Cons.prems(2) by (simp add: fallback_chunk_def strip_clean)
    have "join ''. '' (map ch_content (chunks @ [fallback_chunk cur]) @ [s]) =
          join ''. '' (map ch_content chunks @ [cur]) @ ''. '' @ s"
      using join_append [of "map ch_content chunks @ [cur]" "''. ''" "[s]"]
      by (simp add: content)
    then show ?thesis
      using Cons.IH [OF rest s run] by simp
  next
    case False
    then have step: "fallback_step m (chunks, cur) s = (chunks, cur @ ''. '' @ s)"
      using ne by (simp add: fallback_step_def)
    have run: "fallback_loop m (chunks, cur @ ''. '' @ s) ss = (chunks', cur')"
      using Cons.prems(3) by (simp add: step)
    have cl: "clean (cur @ ''. '' @ s)"
      using Cons.prems(2) s by (rule clean_append)
    have "join ''. '' (map ch_content chunks @ [cur @ ''. '' @ s]) =
          join ''. '' (map ch_content chunks @ [cur]) @ ''. '' @ s"
      by (rule join_snoc_append)
    then show ?thesis
      using Cons.IH [OF rest cl run] by simp
  qed
qed

lemma fallback_chunking_reconstructs:
  assumes "\<forall>s \<in> set (split_sentences content). clean s"
  shows "join ''. '' (map ch_content (fallback_chunking m content)) = content"
proof -
  obtain s ss where split: "split_sentences content = s # ss"
    using split_from_nonempty [of "[]" content]
    by (cases "split_sentences content") (simp_all add: split_sentences_def)
  have s: "clean s" and rest: "\<forall>s \<in> set ss. clean s" using assms split by simp_all
  obtain chunks' cur' where run: "fallback_loop m ([], s) ss = (chunks', cur')"
    by (cases "fallback_loop m ([], s) ss") 
  have first: "fallback_step m ([], []) s = ([], s)"
    by (simp add: fallback_step_def)
  have cl: "clean cur'"
    using fallback_loop_join [OF rest s run] by simp
  have j: "join ''. '' (map ch_content chunks' @ [cur']) = join ''. '' ([s] @ ss)"
    using fallback_loop_join [OF rest s run] join_append [of "[s]" "''. ''" ss] by simp
  have "fallback_chunking m content = chunks' @ [fallback_chunk cur']"
    using cl by (simp add: fallback_chunking_def split first run clean_def)
  then have "map ch_content (fallback_chunking m content) = map ch_content chunks' @ [cur']"
    using cl by (simp add: fallback_chunk_def strip_clean)
  then have "join ''. '' (map ch_content (fallback_chunking m content)) = join ''. '' (s # ss)"
    using j by simp
  then show ?thesis
    using join_split_sentences [of content] by (simp add: split)
qed

lemma fallback_loop_bound:
  assumes "set ss \<subseteq> set S" and "\<forall>ch \<in> set chunks. within_limit m S ch"
    and "cur = [] \<or> int (length (split_ws cur)) \<le> m \<or> cur \<in> set S"
    and "fallback_loop m (chunks, cur) ss = (chunks', cur')"
  shows "(\<forall>ch \<in> set chunks'. within_limit m S ch) \<and>
         (cur' = [] \<or> int (length (split_ws cur')) \<le> m \<or> cur' \<in> set S)"
  using assms
proof (induction ss arbitrary: chunks cur)
  case Nil
  then show ?case by simp
next
  case (Cons s ss)
  have sS: "s \<in> set S" and rest: "set ss \<subseteq> set S" using Cons.prems(1) by simp_all
  consider (first) "cur = []"
    | (flush) "cur \<noteq> []" "m < int (length (split_ws (cur @ ''. '' @ s)))"
    | (grow) "cur \<noteq> []" "\<not> m < int (length (split_ws (cur @ ''. '' @ s)))"
    by blast
  then show ?case
  proof cases
    case first
    then have step: "fallback_step m (chunks, cur) s = (chunks, s)"
      by (simp add: fallback_step_def)
    have run: "fallback_loop m (chunks, s) ss = (chunks', cur')"
      using Cons.prems(4) by (simp add: step)
    show ?thesis
      by (rule Cons.IH [OF rest Cons.prems(2) _ run]) (simp add: sS)
  next
    case flush
    then have step: "fallback_step m (chunks, cur) s = (chunks @ [fallback_chunk cur], s)"
      by (simp add: fallback_step_def)
    have run: "fallback_loop m (chunks @ [fallback_chunk cur], s) ss = (chunks', cur')"
      using Cons.prems(4) by (simp add: step)
    have "within_limit m S (fallback_chunk cur)"
      using Cons.prems(3) flush(1) by (auto simp: within_limit_def fallback_chunk_def)
    then have all: "\<forall>ch \<in> set (chunks @ [fallback_chunk cur]). within_limit m S ch"
      using Cons.prems(2) by simp
    show ?thesis
      by (rule Cons.IH [OF rest all _ run]) (simp add: sS)
  next
    case grow
    then have step: "fallback_step m (chunks, cur) s = (chunks, cur @ ''. '' @ s)"
      by (simp add: fallback_step_def)
    have run: "fallback_loop m (chunks, cur @ ''. '' @ s) ss = (chunks', cur')"
      using Cons.prems(4) by (simp add: step)
    show ?thesis
      by (rule Cons.IH [OF rest Cons.prems(2) _ run]) (use grow(2) in simp)
  qed
qed

lemma fallback_chunking_bound:
  "\<forall>ch \<in> set (fallback_chunking m content). within_limit m (split_sentences content) ch"
proof -
  obtain chunks' cur' where run:
    "fallback_loop m ([], []) (split_sentences content) = (chunks', cur')"
    by (cases "fallback_loop m ([], []) (split_sentences content)")
  have inv: "(\<forall>ch \<in> set chunks'. within_limit m (split_sentences content) ch) \<and>
         (cur' = [] \<or> int (length (split_ws cur')) \<le> m \<or> cur' \<in> set (split_sentences content))"
    by (rule fallback_loop_bound [OF _ _ _ run]) simp_all
  have "cur' \<noteq> [] \<Longrightarrow> within_limit m (split_sentences content) (fallback_chunk cur')"
    using inv by (auto simp: within_limit_def fallback_chunk_def)
  then show ?thesis
    using inv by (auto simp: fallback_chunking_def run)
qed

text \<open>
  Claim C5 as stated fails. With \<^verbatim>\<open>max_chunk_words = 2\<close> the four-word text
  \<^verbatim>\<open>"a b c. d"\<close> gives a first chunk of three words, which is not the last chunk; with
  \<^verbatim>\<open>max_chunk_words = 1\<close> the two-word text \<^verbatim>\<open>" a. b"\<close> gives chunks that join to
  \<^verbatim>\<open>"a. b"\<close>, the leading space lost to \<^verbatim>\<open>strip()\<close>.
\<close>

theorem fallback_chunking_counterexample:
  "int (length (split_ws ''a b c. d'')) > 2
   \<and> map ch_word_count (fallback_chunking 2 ''a b c. d'') = [3, 1]
   \<and> int (length (split_ws '' a. b'')) > 1
   \<and> join ''. '' (map ch_content (fallback_chunking 1 '' a. b'')) = ''a. b''
   \<and> join ''. '' (map ch_content (fallback_chunking 1 '' a. b'')) \<noteq> '' a. b''"
  by code_simp

text \<open>
  Claim C5, amended. For every text and every limit, each chunk of the fallback splitter
  either has at most \<^verbatim>\<open>max_chunk_words\<close> words or is one whole sentence of the input
  (the splitter never cuts inside a sentence); and when every sentence between the
  \<^verbatim>\<open>". "\<close> separators is non-empty and neither begins nor ends with whitespace, the
  chunks joined by \<^verbatim>\<open>". "\<close> are the input.
\<close>

theorem fallback_chunking_amended:
  "(\<forall>ch \<in> set (fallback_chunking m content). within_limit m (split_sentences content) ch)
   \<and> ((\<forall>s \<in> set (split_sentences content). clean s) \<longrightarrow>
        join ''. '' (map ch_content (fallback_chunking m content)) = content)"
  using fallback_chunking_bound [of m content] fallback_chunking_reconstructs [of content m]
  by blast

theorem fallback_chunking_amended_witness:
  "list_all clean (split_sentences ''a b. c d. e'')
   \<and> join ''. '' (map ch_content (fallback_chunking 2 ''a b. c d. e'')) = ''a b. c d. e''
   \<and> map ch_word_count (fallback_chunking 2 ''a b. c d. e'') = [2, 2, 1]"
proof -
  have h: "list_all clean (split_sentences ''a b. c d. e'')"
    by code_simp
  have counts: "map ch_word_count (fallback_chunking 2 ''a b. c d. e'') = [2, 2, 1]"
    by code_simp
  show ?thesis
    using h counts fallback_chunking_amended [of 2 "''a b. c d. e''"]
    by (simp add: list_all_iff)
qed

section \<open>Properties of the context resolver\<close>

lemma words_from_Nil_iff: "words_from cur s = [] \<longleftrightarrow> cur = [] \<and> (\<forall>c \<in> set s. is_space c)"
  by (induction s arbitrary: cur) auto

lemma strip_no_words: "split_ws (strip s) = [] \<Longrightarrow> strip s = []"
proof -
  assume "split_ws (strip s) = []"
  then have all: "\<forall>c \<in> set (strip s). is_space c"
    by (simp add: split_ws_def words_from_Nil_iff)
  define u where "u = dropWhile is_space (rev (dropWhile is_space s))"
  have su: "strip s = rev u" by (simp add: strip_def u_def)
  show ?thesis
  proof (cases u)
    case Nil
    then show ?thesis by (simp add: su)
  next
    case (Cons c cs)
    then have "u \<noteq> []" by simp
    then have "\<not> is_space (hd u)" unfolding u_def by (rule hd_dropWhile)
    moreover have "is_space (hd u)" using all Cons by (simp add: su)
    ultimately show ?thesis by simp
  qed
qed

lemma contains_Nil: "contains hay []"
  by (cases hay) simp_all

lemma normalize_no_words:
  "set (split_ws (normalize_context_name name)) = {} \<Longrightarrow> normalize_context_name name = []"
  unfolding normalize_context_name_def by (auto intro: strip_no_words)

lemma contexts_match_iff:
  "contexts_match name1 name2 \<longleftrightarrow>
     normalize_context_name name1 = normalize_context_name name2
     \<or> contains (normalize_context_name name2) (normalize_context_name name1)
     \<or> contains (normalize_context_name name1) (normalize_context_name name2)
     \<or> (set (split_ws (normalize_context_name name1)) \<noteq> {}
        \<and> set (split_ws (normalize_context_name name2)) \<noteq> {}
        \<and> real (card (set (split_ws (normalize_context_name name1))
                       \<inter> set (split_ws (normalize_context_name name2))))
            / real (min (card (set (split_ws (normalize_context_name name1))))
                        (card (set (split_ws (normalize_context_name name2))))) \<ge> 0.5)"
  unfolding contexts_match_def Let_def by auto

lemma find_first_match:
  "\<forall>c \<in> set pre. \<not> P c \<Longrightarrow> P x \<Longrightarrow> List.find P (pre @ x # post) = Some x"
  by (induction pre) auto

lemma resolve_single_context_match:
  assumes "\<forall>c \<in> set pre. \<not> contexts_match name (c_name c)"
    and "contexts_match name (c_name ctx)"
  shows "resolve_single_context e describe s (pre @ ctx # post) name project_id key_concepts
           = (Some (c_id ctx), pre @ ctx # post, s)"
  using find_first_match [of pre "\<lambda>c. contexts_match name (c_name c)" ctx post] assms
  by (simp add: resolve_single_context_def)

lemma lower_char_keeps:
  assumes "(of_char k :: nat) < 65 \<or> (90 < (of_char k :: nat) \<and> (of_char k :: nat) < 97)"
  shows "lower_char c = k \<longleftrightarrow> c = k"
proof -
  define n where "n = (of_char c :: nat)"
  define m where "m = (of_char k :: nat)"
  have lt: "n < 256" unfolding n_def by simp
  show ?thesis
  proof (cases "(65 \<le> n \<and> n \<le> 90) \<or> (192 \<le> n \<and> n \<le> 222 \<and> n \<noteq> 215)")
    case True
    then have l: "lower_char c = char_of (n + 32)"
      by (simp add: lower_char_def n_def Let_def)
    have "(of_char (lower_char c) :: nat) = n + 32"
      using True unfolding l by auto
    then have "(of_char (lower_char c) :: nat) \<noteq> m"
      using True assms unfolding m_def by auto
    then have a: "lower_char c \<noteq> k" unfolding m_def by auto
    have "n \<noteq> m" using True assms unfolding m_def by auto
    then have b: "c \<noteq> k" unfolding n_def m_def by auto
    show ?thesis using a b by simp
  next
    case False
    then have "lower_char c = c"
      unfolding lower_char_def n_def Let_def by (simp only: if_False)
    then show ?thesis by simp
  qed
qed

lemma lower_char_underscore: "lower_char c = CHR ''_'' \<longleftrightarrow> c = CHR ''_''"
  by (rule lower_char_keeps) simp

lemma lower_char_hyphen: "lower_char c = CHR ''-'' \<longleftrightarrow> c = CHR ''-''"
  by (rule lower_char_keeps) simp

lemma normalize_one_pass:
  "replace_char (CHR ''-'') (CHR '' '') (replace_char (CHR ''_'') (CHR '' '') (lower name))
     = map (\<lambda>c. if c = CHR ''_'' \<or> c = CHR ''-'' then CHR '' '' else lower_char c) name"
  by (induction name) (auto simp: replace_char_def lower_def lower_char_underscore lower_char_hyphen)

lemma strip_decomp:
  "\<exists>pre post. s = pre @ strip s @ post \<and> list_all is_space pre \<and> list_all is_space post"
proof -
  define t where "t = dropWhile is_space s"
  have 1: "s = takeWhile is_space s @ t" by (simp add: t_def)
  have "rev (takeWhile is_space (rev t) @ dropWhile is_space (rev t)) = rev (rev t)"
    by (simp only: takeWhile_dropWhile_id)
  then have "rev (dropWhile is_space (rev t)) @ rev (takeWhile is_space (rev t)) = t"
    by (simp only: rev_append rev_rev_ident)
  then have 2: "t = strip s @ rev (takeWhile is_space (rev t))"
    by (simp add: strip_def t_def)
  have 3: "s = takeWhile is_space s @ strip s @ rev (takeWhile is_space (rev t))"
    using 1 2 by simp
  have 4: "list_all is_space (takeWhile is_space s)"
    by (auto simp: list_all_iff dest: set_takeWhileD)
  have 5: "list_all is_space (rev (takeWhile is_space (rev t)))"
    by (auto simp: list_all_iff dest: set_takeWhileD)
  show ?thesis using 3 4 5 by blast
qed

lemma strip_ends:
  assumes "strip s \<noteq> []"
  shows "\<not> is_space (hd (strip s)) \<and> \<not> is_space (last (strip s))"
proof -
  define t where "t = dropWhile is_space s"
  define u where "u = dropWhile is_space (rev t)"
  have su: "strip s = rev u" by (simp add: strip_def u_def t_def)
  have u: "u \<noteq> []" using assms su by simp
  then have "\<not> is_space (hd u)" unfolding u_def by (rule hd_dropWhile)
  then have l: "\<not> is_space (last (strip s))" using u by (simp add: su last_rev)
  have "rev (takeWhile is_space (rev t) @ dropWhile is_space (rev t)) = rev (rev t)"
    by (simp only: takeWhile_dropWhile_id)
  then have "rev (dropWhile is_space (rev t)) @ rev (takeWhile is_space (rev t)) = t"
    by (simp only: rev_append rev_rev_ident)
  then have t: "t = strip s @ rev (takeWhile is_space (rev t))"
    by (simp add: su u_def)
  then have "t \<noteq> []" using assms by auto
  then have "\<not> is_space (hd t)" unfolding t_def by (rule hd_dropWhile)
  moreover have "hd t = hd (strip s)" using t assms by (metis hd_append2)
  ultimately show ?thesis using l by simp
qed

lemma normalize_decomp:
  "\<exists>pre post.
     map (\<lambda>c. if c = CHR ''_'' \<or> c = CHR ''-'' then CHR '' '' else lower_char c) name
       = pre @ normalize_context_name name @ post
     \<and> list_all is_space pre \<and> list_all is_space post"
  unfolding normalize_context_name_def normalize_one_pass by (rule strip_decomp)

lemma normalize_ends:
  "normalize_context_name name \<noteq> [] \<Longrightarrow>
     \<not> is_space (hd (normalize_context_name name))
     \<and> \<not> is_space (last (normalize_context_name name))"
  unfolding normalize_context_name_def by (rule strip_ends)

text \<open>
  Claim C6. The normal form of a name is the name with every capital replaced by its
  small letter and every underscore and hyphen by a space, without the whitespace at its
  two ends: what is cut off on either side is whitespace only, and what remains neither
  starts nor ends with whitespace. Two names match exactly when their normal forms are
  equal, one contains the other, or the overlap of their word sets divided by the size of
  the smaller one is at least one half; the quotient only decides when neither normal form
  contains the other, and then both word sets are non-empty. When some cached context
  matches, the resolver returns the id of the first one in cache order and leaves cache
  and store as they are.
\<close>

theorem context_resolver_match:
  "(\<exists>pre post.
      map (\<lambda>c. if c = CHR ''_'' \<or> c = CHR ''-'' then CHR '' '' else lower_char c) name
        = pre @ normalize_context_name name @ post
      \<and> list_all is_space pre \<and> list_all is_space post)
   \<and> (normalize_context_name name \<noteq> [] \<longrightarrow>
        \<not> is_space (hd (normalize_context_name name))
        \<and> \<not> is_space (last (normalize_context_name name)))
   \<and> (contexts_match name1 name2 \<longleftrightarrow>
      normalize_context_name name1 = normalize_context_name name2
      \<or> contains (normalize_context_name name2) (normalize_context_name name1)
      \<or> contains (normalize_context_name name1) (normalize_context_name name2)
      \<or> real (card (set (split_ws (normalize_context_name name1))
                      \<inter> set (split_ws (normalize_context_name name2))))
          / real (min (card (set (split_ws (normalize_context_name name1))))
                      (card (set (split_ws (normalize_context_name name2))))) \<ge> 0.5)
   \<and> (\<not> contains (normalize_context_name name2) (normalize_context_name name1)
        \<and> \<not> contains (normalize_context_name name1) (normalize_context_name name2)
      \<longrightarrow> 0 < min (card (set (split_ws (normalize_context_name name1))))
                  (card (set (split_ws (normalize_context_name name2)))))
   \<and> ((\<forall>c \<in> set pre. \<not> contexts_match name (c_name c)) \<and> contexts_match name (c_name ctx)
      \<longrightarrow> resolve_single_context e describe s (pre @ ctx # post) name project_id key_concepts
            = (Some (c_id ctx), pre @ ctx # post, s))"
proof (intro conjI impI)
  show "\<exists>pre post.
      map (\<lambda>c. if c = CHR ''_'' \<or> c = CHR ''-'' then CHR '' '' else lower_char c) name
        = pre @ normalize_context_name name @ post
      \<and> list_all is_space pre \<and> list_all is_space post"
    by (rule normalize_decomp)
next
  assume "normalize_context_name name \<noteq> []"
  then show "\<not> is_space (hd (normalize_context_name name))"
    and "\<not> is_space (last (normalize_context_name name))"
    using normalize_ends by blast+
next
  have empty1: "set (split_ws (normalize_context_name name1)) = {} \<Longrightarrow>
      contains (normalize_context_name name2) (normalize_context_name name1)"
    using normalize_no_words [of name1] by (simp add: contains_Nil)
  have empty2: "set (split_ws (normalize_context_name name2)) = {} \<Longrightarrow>
      contains (normalize_context_name name1) (normalize_context_name name2)"
    using normalize_no_words [of name2] by (simp add: contains_Nil)
  show "contexts_match name1 name2 \<longleftrightarrow>
      normalize_context_name name1 = normalize_context_name name2
      \<or> contains (normalize_context_name name2) (normalize_context_name name1)
      \<or> contains (normalize_context_name name1) (normalize_context_name name2)
      \<or> real (card (set (split_ws (normalize_context_name name1))
                      \<inter> set (split_ws (normalize_context_name name2))))
          / real (min (card (set (split_ws (normalize_context_name name1))))
                      (card (set (split_ws (normalize_context_name name2))))) \<ge> 0.5"
    unfolding contexts_match_iff using empty1 empty2 by blast
  assume no: "\<not> contains (normalize_context_name name2) (normalize_context_name name1)
        \<and> \<not> contains (normalize_context_name name1) (normalize_context_name name2)"
  have "set (split_ws (normalize_context_name name1)) \<noteq> {}"
    and "set (split_ws (normalize_context_name name2)) \<noteq> {}"
    using no empty1 empty2 by blast+
  then show "0 < min (card (set (split_ws (normalize_context_name name1))))
                  (card (set (split_ws (normalize_context_name name2))))"
    by (simp add: card_gt_0_iff)
next
  assume "(\<forall>c \<in> set pre. \<not> contexts_match name (c_name c)) \<and> contexts_match name (c_name ctx)"
  then show "resolve_single_context e describe s (pre @ ctx # post) name project_id key_concepts
            = (Some (c_id ctx), pre @ ctx # post, s)"
    by (simp add: resolve_single_context_match)
qed

theorem context_resolver_match_witness:
  "normalize_context_name ([CHR 0x09] @ '' Project_Planning-V2 '' @ [CHR 0x0A])
     = ''project planning v2''
   \<and> normalize_context_name ''ABCDEFGHIJKLMNOPQRSTUVWXYZ'' = ''abcdefghijklmnopqrstuvwxyz''
   \<and> normalize_context_name [CHR 0xC9, CHR 0xD7] = [CHR 0xE9, CHR 0xD7]
   \<and> normalize_context_name ''_ -'' = []
   \<and> contexts_match ''Project Planning'' ''project_planning''
   \<and> contexts_match ''Project Planning'' ''Project-Planning''
   \<and> contexts_match ''plan'' ''Project Planning''
   \<and> contexts_match ''release planning notes'' ''planning board''
   \<and> \<not> contexts_match ''alpha beta gamma'' ''gamma delta epsilon''
   \<and> \<not> contexts_match ''Project Planning'' ''billing''
   \<and> map c_name planning_contexts = [''billing'', ''project_planning'', ''Project-Planning'']
   \<and> map c_id planning_contexts = [''c0'', ''c1'', ''c2'']
   \<and> resolve_single_context no_faults (\<lambda>n. Inl ProviderError) planning_store
        planning_contexts ''Project Planning'' ''p'' []
      = (Some ''c1'', planning_contexts, planning_store)
   \<and> fst (resolve_contexts no_faults (\<lambda>n. Inl ProviderError) planning_store
        [''p'' \<mapsto> planning_contexts] [''Project Planning''] ''p'' []) = [''c1'']
   \<and> contexts (snd (snd (resolve_contexts no_faults (\<lambda>n. Inl ProviderError) planning_store
        [''p'' \<mapsto> planning_contexts] [''Project Planning''] ''p'' []))) = planning_contexts
   \<and> storage_list_contexts_by_project no_faults planning_store ''p'' = rev planning_contexts
   \<and> fst (resolve_contexts no_faults (\<lambda>n. Inl ProviderError) planning_store Map.empty
        [''Project Planning''] ''p'' []) = [''c2'']
   \<and> contexts (snd (snd (resolve_contexts no_faults (\<lambda>n. Inl ProviderError) planning_store
        Map.empty [''Project Planning''] ''p'' []))) = planning_contexts"
proof -
  let ?c0 = "\<lparr>c_id = ''c0'', c_project_id = ''p'', c_name = ''billing'',
       c_description = ''invoices'', c_fragment_ids = []\<rparr>"
  let ?c1 = "\<lparr>c_id = ''c1'', c_project_id = ''p'', c_name = ''project_planning'',
       c_description = ''plans'', c_fragment_ids = []\<rparr>"
  let ?c2 = "\<lparr>c_id = ''c2'', c_project_id = ''p'', c_name = ''Project-Planning'',
       c_description = ''more plans'', c_fragment_ids = []\<rparr>"
  have n1: "normalize_context_name ([CHR 0x09] @ '' Project_Planning-V2 '' @ [CHR 0x0A])
     = ''project planning v2''"
    by code_simp
  have n2: "normalize_context_name ''ABCDEFGHIJKLMNOPQRSTUVWXYZ'' = ''abcdefghijklmnopqrstuvwxyz''"
    by code_simp
  have n3: "normalize_context_name [CHR 0xC9, CHR 0xD7] = [CHR 0xE9, CHR 0xD7]"
    by code_simp
  have n4: "normalize_context_name ''_ -'' = []"
    by code_simp
  have m1: "contexts_match ''Project Planning'' ''project_planning''"
    by code_simp
  have m2: "contexts_match ''Project Planning'' ''Project-Planning''"
    by code_simp
  have m3: "contexts_match ''plan'' ''Project Planning''"
    by code_simp
  have m4: "contexts_match ''release planning notes'' ''planning board''"
    by code_simp
  have m5: "\<not> contexts_match ''alpha beta gamma'' ''gamma delta epsilon''"
    by code_simp
  have m6: "\<not> contexts_match ''Project Planning'' ''billing''"
    by code_simp
  have cache: "planning_contexts = [?c0] @ ?c1 # [?c2]"
    by (simp add: planning_contexts_def)
  have single: "resolve_single_context no_faults (\<lambda>n. Inl ProviderError) planning_store
        planning_contexts ''Project Planning'' ''p'' []
      = (Some ''c1'', planning_contexts, planning_store)"
    unfolding cache
    using m1 m6 context_resolver_match
      [where name = "''Project Planning''" and pre = "[?c0]" and ctx = ?c1 and post = "[?c2]"
         and e = no_faults and describe = "\<lambda>n. Inl ProviderError" and s = planning_store
         and project_id = "''p''" and key_concepts = "[]"]
    by simp
  have listed: "storage_list_contexts_by_project no_faults planning_store ''p''
      = rev planning_contexts"
    by code_simp
  have newest: "rev planning_contexts = [] @ ?c2 # [?c1, ?c0]"
    by (simp add: planning_contexts_def)
  have single_listed: "resolve_single_context no_faults (\<lambda>n. Inl ProviderError) planning_store
        (rev planning_contexts) ''Project Planning'' ''p'' []
      = (Some ''c2'', rev planning_contexts, planning_store)"
    unfolding newest
    using m2 context_resolver_match
      [where name = "''Project Planning''" and pre = "[]" and ctx = ?c2 and post = "[?c1, ?c0]"
         and e = no_faults and describe = "\<lambda>n. Inl ProviderError" and s = planning_store
         and project_id = "''p''" and key_concepts = "[]"]
    by simp
  have names: "map c_name planning_contexts = [''billing'', ''project_planning'', ''Project-Planning'']"
    and ids: "map c_id planning_contexts = [''c0'', ''c1'', ''c2'']"
    by (simp_all add: planning_contexts_def)
  have held: "contexts planning_store = planning_contexts"
    by (simp add: planning_store_def)
  have cached: "fst (resolve_contexts no_faults (\<lambda>n. Inl ProviderError) planning_store
        [''p'' \<mapsto> planning_contexts] [''Project Planning''] ''p'' []) = [''c1'']
     \<and> contexts (snd (snd (resolve_contexts no_faults (\<lambda>n. Inl ProviderError) planning_store
        [''p'' \<mapsto> planning_contexts] [''Project Planning''] ''p'' []))) = planning_contexts"
    by (simp add: resolve_contexts_def single truthy_def the_default_def held)
  have whole: "fst (resolve_contexts no_faults (\<lambda>n. Inl ProviderError) planning_store Map.empty
        [''Project Planning''] ''p'' []) = [''c2'']
     \<and> contexts (snd (snd (resolve_contexts no_faults (\<lambda>n. Inl ProviderError) planning_store
        Map.empty [''Project Planning''] ''p'' []))) = planning_contexts"
    by (simp add: resolve_contexts_def listed single_listed truthy_def the_default_def held)
  show ?thesis
    using n1 n2 n3 n4 m1 m2 m3 m4 m5 m6 names ids single cached listed whole by blast
qed

section \<open>The semantic chunker on a provider failure\<close>

lemma chunk_content_reraises:
  "int (length (split_ws content)) > max_chunk_words \<Longrightarrow>
   generate (chunking_prompt content) = Inl err \<Longrightarrow>
   chunk_content generate loads_chunks chunking_prompt max_chunk_words content = Inl err"
  by (simp add: chunk_content_def semantic_chunking_def Let_def)

lemma four_words: "length (split_ws ''a b c. d'') = 4"
  by code_simp

text \<open>
  Claim C4 against the code. On a text of more than \<^verbatim>\<open>max_chunk_words\<close> words,
  \<^verbatim>\<open>chunk_content\<close> hands over to \<^verbatim>\<open>_semantic_chunking\<close>, whose handler logs and
  re-raises: a provider failure reaches the caller. \<^verbatim>\<open>_fallback_chunking\<close>, which would
  have split the text below into two chunks, is never called.
\<close>

theorem chunk_content_provider_failure:
  "chunk_content (\<lambda>prompt. Inl ProviderError) loads_chunks chunking_prompt 2 ''a b c. d''
     = Inl ProviderError
   \<and> map ch_content (fallback_chunking 2 ''a b c. d'') = [''a b c'', ''d'']"
proof
  show "chunk_content (\<lambda>prompt. Inl ProviderError) loads_chunks chunking_prompt 2 ''a b c. d''
     = Inl ProviderError"
    by (rule chunk_content_reraises) (simp_all add: four_words)
  show "map ch_content (fallback_chunking 2 ''a b c. d'') = [''a b c'', ''d'']"
    by code_simp
qed

section \<open>Properties of the ingestion curator\<close>


lemma same_data_refl [simp]: "same_data s s"
  by (simp add: same_data_def)

lemma get_or_create_collection_same:
  "get_or_create_collection e s p = (r, s1) \<Longrightarrow> same_data s s1"
  by (auto simp: get_or_create_collection_def Let_def same_data_def split: if_splits)

lemma semantic_search_same: "semantic_search e s v p = (r, s1) \<Longrightarrow> same_data s s1"
  by (auto simp: semantic_search_def split: if_splits prod.splits sum.splits
      dest: get_or_create_collection_same)

lemma search_fragments_same: "search_fragments e s v p = (r, s1) \<Longrightarrow> same_data s s1"
  by (auto simp: search_fragments_def split: prod.splits sum.splits dest: semantic_search_same)

lemma search_memory_by_vector_same:
  "search_memory_by_vector e s v p = (r, s1) \<Longrightarrow> same_data s s1"
  by (auto simp: search_memory_by_vector_def split: if_splits dest: search_fragments_same)

lemma curation_inputs_same:
  "curation_inputs e s content p = (relevant, existing, s1) \<Longrightarrow> same_data s s1"
  by (auto simp: curation_inputs_def split: sum.splits prod.splits
      dest: search_memory_by_vector_same)

text \<open>
  Claim C1 as stated fails for one kind of schema-violating output. The object \<^verbatim>\<open>{}\<close>
  lacks the two keys the response schema requires; the three \<^verbatim>\<open>setdefault\<close> calls
  complete it with empty lists, and the call returns the result of applying that empty
  decision.
\<close>

theorem curate_missing_keys_counterexample:
  "get_curation_decision (Parsed (JObject []))
     = Inr [(''contexts_to_create'', JArray []), (''fragments_to_create'', JArray []),
            (''ids_to_delete'', JArray [])]
   \<and> curate_and_chunk no_faults (\<lambda>content relevant existing. Parsed (JObject []))
        notes_store ''new text'' ''p''
     = (Inr \<lparr>created_fragment_ids = [], created_context_ids = [], deleted_ids = JArray []\<rparr>,
        notes_store\<lparr>collections := [''project_p'']\<rparr>)"
  by code_simp

text \<open>
  Claim C1, amended. When the provider call raises, or its text is not JSON, or the JSON
  is not an object, \<open>curate_and_chunk\<close> returns that failure, no decision having been
  applied; the store it leaves holds the fragments, contexts and points it held at the
  start. Steps 1 and 1b only read them.
\<close>

theorem curate_decision_failure:
  assumes "curation_inputs e s content project_id = (relevant, existing, s1)"
    and "curation_reply content relevant existing = CallRaises err
         \<or> curation_reply content relevant existing = NotJson \<and> err = JSONDecodeError
         \<or> (\<exists>v. curation_reply content relevant existing = Parsed v \<and> \<not> is_object v)
           \<and> err = AttributeError"
  shows "curate_and_chunk e curation_reply s content project_id = (Inl err, s1)
     \<and> fragments s1 = fragments s \<and> contexts s1 = contexts s \<and> points s1 = points s"
proof -
  consider (raises) "curation_reply content relevant existing = CallRaises err"
    | (unparsed) "curation_reply content relevant existing = NotJson" "err = JSONDecodeError"
    | (other) v where "curation_reply content relevant existing = Parsed v" "\<not> is_object v"
        "err = AttributeError"
    using assms(2) by blast
  then have "get_curation_decision (curation_reply content relevant existing) = Inl err"
  proof cases
    case raises
    then show ?thesis by (simp add: get_curation_decision_def)
  next
    case unparsed
    then show ?thesis by (simp add: get_curation_decision_def)
  next
    case other
    then show ?thesis
      by (cases v) (simp_all add: get_curation_decision_def is_object_def)
  qed
  then show ?thesis
    using assms(1) curation_inputs_same [OF assms(1)]
    by (simp add: curate_and_chunk_def same_data_def)
qed

theorem curate_decision_failure_witness:
  "curation_inputs no_faults notes_store ''new text'' ''p''
     = ([], contexts notes_store, notes_store\<lparr>collections := [''project_p'']\<rparr>)
   \<and> curate_and_chunk no_faults (\<lambda>content relevant existing. CallRaises ProviderError)
        notes_store ''new text'' ''p''
     = (Inl ProviderError, notes_store\<lparr>collections := [''project_p'']\<rparr>)
   \<and> curate_and_chunk no_faults (\<lambda>content relevant existing. NotJson)
        notes_store ''new text'' ''p''
     = (Inl JSONDecodeError, notes_store\<lparr>collections := [''project_p'']\<rparr>)
   \<and> curate_and_chunk no_faults (\<lambda>content relevant existing. Parsed (JArray []))
        notes_store ''new text'' ''p''
     = (Inl AttributeError, notes_store\<lparr>collections := [''project_p'']\<rparr>)"
proof -
  have inputs: "curation_inputs no_faults notes_store ''new text'' ''p''
     = ([], contexts notes_store, notes_store\<lparr>collections := [''project_p'']\<rparr>)"
    by code_simp
  have other: "\<exists>v. Parsed (JArray []) = Parsed v \<and> \<not> is_object v"
    by (simp add: is_object_def)
  show ?thesis
    using inputs other
      curate_decision_failure [OF inputs,
        of "\<lambda>content relevant existing. CallRaises ProviderError" ProviderError]
      curate_decision_failure [OF inputs,
        of "\<lambda>content relevant existing. NotJson" JSONDecodeError]
      curate_decision_failure [OF inputs,
        of "\<lambda>content relevant existing. Parsed (JArray [])" AttributeError]
    by simp
qed

text \<open>
  A reply that passes the decision step and is not of the schema's types can still end
  the call: an entry of \<^verbatim>\<open>contexts_to_create\<close> that is a string has no \<^verbatim>\<open>get\<close>, and a
  \<^verbatim>\<open>null\<close> under \<^verbatim>\<open>ids_to_delete\<close> has no \<^verbatim>\<open>len\<close> for the closing log line. The
  deletions of step 1 have happened by then: in the third example the one fragment of
  the store is gone when the exception leaves the call.
\<close>

lemma curate_ill_typed_examples:
  "fst (curate_and_chunk no_faults
      (\<lambda>content relevant existing.
         Parsed (JObject [(''contexts_to_create'', JArray [JString ''x''])]))
      notes_store ''new text'' ''p'') = Inl AttributeError"
  "fst (curate_and_chunk no_faults
      (\<lambda>content relevant existing. Parsed (JObject [(''ids_to_delete'', JNull)]))
      notes_store ''new text'' ''p'') = Inl TypeError"
  "curate_and_chunk no_faults
      (\<lambda>content relevant existing.
         Parsed (JObject [(''ids_to_delete'', JArray [JString ''f1'']),
                          (''contexts_to_create'', JArray [JString ''x''])]))
      notes_store ''new text'' ''p''
     = (Inl AttributeError,
        notes_store\<lparr>fragments := [], collections := [''project_p''], points := []\<rparr>)"
  by code_simp+

lemma create_context_ok:
  "\<not> sqlite_fails e (InsertContext name) \<Longrightarrow>
     \<exists>cid s1. create_context e s p name d = (Inr cid, s1)"
  by (simp add: create_context_def storage_create_context_def Let_def)

lemma typed_field:
  "(case map_of items key of None \<Rightarrow> True | Some x \<Rightarrow> is_string x) \<Longrightarrow>
   dict_get items key JNull = JNull \<or> (\<exists>str. dict_get items key JNull = JString str)"
  by (auto simp: dict_get_def is_string_def split: option.splits json.splits)

lemma create_context_step_ok:
  assumes "typed_entry ''name'' ''description'' cd"
  shows "\<exists>st1. create_context_step e p st cd = Inr st1"
proof -
  obtain m created s where st: "st = (m, created, s)" by (cases st)
  obtain items where cd: "cd = JObject items"
    and n: "dict_get items ''name'' JNull = JNull
            \<or> (\<exists>str. dict_get items ''name'' JNull = JString str)"
    and d: "dict_get items ''description'' JNull = JNull
            \<or> (\<exists>str. dict_get items ''description'' JNull = JString str)"
    using assms by (auto simp: typed_entry_def dest!: typed_field split: json.splits)
  show ?thesis
    using n d
    by (auto simp: create_context_step_def st cd Let_def json_truthy_def hashable_def
        split: prod.splits sum.splits)
qed

lemma create_contexts_ok:
  "list_all (typed_entry ''name'' ''description'') cds \<Longrightarrow>
   \<exists>st1. create_contexts e p cds st = Inr st1"
proof (induction cds arbitrary: st)
  case Nil
  show ?case by (rule exI [of _ st]) simp
next
  case (Cons cd cds)
  have "typed_entry ''name'' ''description'' cd"
    using Cons.prems by simp
  then obtain st1 where "create_context_step e p st cd = Inr st1"
    using create_context_step_ok by blast
  moreover have "\<exists>st2. create_contexts e p cds st1 = Inr st2"
    using Cons.IH [of st1] Cons.prems by simp
  ultimately show ?case by simp
qed

lemma store_resolved_ok:
  assumes "\<not> sqlite_fails e (InsertContext ''general'')"
  shows "\<exists>st1. store_resolved e p st text cid = Inr st1"
proof -
  obtain g s1 where "create_context e (ls_store st) p ''general'' general_description = (Inr g, s1)"
    using create_context_ok [OF assms] by blast
  then show ?thesis
    by (simp add: store_resolved_def split: option.splits)
qed

lemma create_fragment_step_ok:
  assumes "\<not> sqlite_fails e (InsertContext ''general'')"
    and "typed_entry ''content'' ''context_name'' fd"
  shows "\<exists>st1. create_fragment_step e p st fd = Inr st1"
proof -
  obtain items where fd: "fd = JObject items"
    and c: "dict_get items ''content'' JNull = JNull
            \<or> (\<exists>str. dict_get items ''content'' JNull = JString str)"
    and n: "dict_get items ''context_name'' JNull = JNull
            \<or> (\<exists>str. dict_get items ''context_name'' JNull = JString str)"
    using assms(2) by (auto simp: typed_entry_def dest!: typed_field split: json.splits)
  show ?thesis
    using c n store_resolved_ok [OF assms(1)]
    by (auto simp: create_fragment_step_def fd Let_def json_truthy_def hashable_def)
qed

lemma create_fragments_ok:
  assumes "\<not> sqlite_fails e (InsertContext ''general'')"
  shows "list_all (typed_entry ''content'' ''context_name'') fds \<Longrightarrow>
         \<exists>st1. create_fragments e p fds st = Inr st1"
proof (induction fds arbitrary: st)
  case Nil
  show ?case by (rule exI [of _ st]) simp
next
  case (Cons fd fds)
  have "typed_entry ''content'' ''context_name'' fd"
    using Cons.prems by simp
  then obtain st1 where "create_fragment_step e p st fd = Inr st1"
    using create_fragment_step_ok [OF assms] by blast
  moreover have "\<exists>st2. create_fragments e p fds st1 = Inr st2"
    using Cons.IH [of st1] Cons.prems by simp
  ultimately show ?case by simp
qed

lemma create_phase_ok:
  assumes "\<not> sqlite_fails e (InsertContext ''general'')" and "schema_typed d"
  shows "\<exists>cc st. create_phase e s d p existing = Inr (cc, st)"
proof -
  obtain ids where ids: "ids_to_delete d = JArray ids"
    using assms(2) by (auto simp: schema_typed_def split: json.splits)
  obtain cds where cds: "contexts_to_create d = JArray cds"
    and cty: "list_all (typed_entry ''name'' ''description'') cds"
    using assms(2) by (auto simp: schema_typed_def typed_entries_def split: json.splits)
  obtain fds where fds: "fragments_to_create d = JArray fds"
    and fty: "list_all (typed_entry ''content'' ''context_name'') fds"
    using assms(2) by (auto simp: schema_typed_def typed_entries_def split: json.splits)
  have "\<exists>s1. delete_step e s (ids_to_delete d) p = Inr s1"
    by (simp add: delete_step_def ids has_len_def)
  then obtain s1 where del: "delete_step e s (ids_to_delete d) p = Inr s1"
    by blast
  obtain st2 where "create_contexts e p cds (context_map_of existing, [], s1) = Inr st2"
    using create_contexts_ok [OF cty] by blast
  then have "\<exists>st2'. create_contexts_step e p (contexts_to_create d)
        (context_map_of existing, [], s1) = Inr st2'"
  proof (cases "json_truthy (JArray cds)")
    case True
    assume "create_contexts e p cds (context_map_of existing, [], s1) = Inr st2"
    then have "create_contexts_step e p (contexts_to_create d)
        (context_map_of existing, [], s1) = Inr st2"
      using True by (simp add: create_contexts_step_def cds py_iter_def)
    then show ?thesis by (rule exI)
  next
    case False
    then have "create_contexts_step e p (contexts_to_create d)
        (context_map_of existing, [], s1) = Inr (context_map_of existing, [], s1)"
      by (simp add: create_contexts_step_def cds)
    then show ?thesis by (rule exI)
  qed
  then obtain st2' where cs: "create_contexts_step e p (contexts_to_create d)
        (context_map_of existing, [], s1) = Inr st2'"
    by blast
  obtain m cc s2 where st2: "st2' = (m, cc, s2)" by (cases st2')
  obtain st3 where "create_fragments e p fds
       \<lparr>ls_context_map = m, ls_created = [], ls_groups = [], ls_store = s2\<rparr> = Inr st3"
    using create_fragments_ok [OF assms(1) fty] by blast
  then have "\<exists>st3'. create_fragments_step e p (fragments_to_create d)
       \<lparr>ls_context_map = m, ls_created = [], ls_groups = [], ls_store = s2\<rparr> = Inr st3'"
    by (cases "json_truthy (JArray fds)")
      (simp_all add: create_fragments_step_def fds py_iter_def)
  then obtain st3' where fs: "create_fragments_step e p (fragments_to_create d)
       \<lparr>ls_context_map = m, ls_created = [], ls_groups = [], ls_store = s2\<rparr> = Inr st3'"
    by blast
  show ?thesis
    by (simp add: create_phase_def del cs st2 fs)
qed

lemma apply_curation_decision_ok:
  assumes "\<not> sqlite_fails e (InsertContext ''general'')" and "schema_typed d"
  shows "\<exists>res s'. apply_curation_decision e s d p existing = (Inr res, s')"
proof -
  obtain cc st where "create_phase e s d p existing = Inr (cc, st)"
    using create_phase_ok [OF assms] by blast
  then show ?thesis by (simp add: apply_curation_decision_def)
qed

lemma apply_curation_decision_deleted:
  "apply_curation_decision e s d p existing = (Inr res, s') \<Longrightarrow> deleted_ids res = ids_to_delete d"
  by (auto simp: apply_curation_decision_def split: sum.splits prod.splits)

lemma curate_and_chunk_result:
  assumes "curation_inputs e s content p = (relevant, existing, s1)"
    and "get_curation_decision (reply content relevant existing) = Inr d"
    and "curate_and_chunk e reply s content p = (Inr res, s')"
  shows "apply_curation_decision e s1 d p existing = (Inr res, s')"
  using assms
  by (auto simp: curate_and_chunk_def split: prod.splits sum.splits if_splits)

lemma find_map_other:
  assumes "\<And>c. c_id (f c) = c_id c" and "\<And>c. c_id c = cid \<Longrightarrow> f c = c"
  shows "List.find (\<lambda>c. c_id c = cid) (map f cs) = List.find (\<lambda>c. c_id c = cid) cs"
  by (induction cs) (auto simp: assms)

lemma find_map_self:
  assumes "\<And>c. c_id (f c) = c_id c"
  shows "List.find (\<lambda>c. c_id c = cid) (map f cs) = map_option f (List.find (\<lambda>c. c_id c = cid) cs)"
  by (induction cs) (auto simp: assms)

lemma update_other:
  "k \<noteq> cid \<Longrightarrow>
   storage_get_context e (snd (storage_update_context_fragments e s k ids)) cid
     = storage_get_context e s cid"
  by (simp add: storage_get_context_def storage_update_context_fragments_def find_map_other)

lemma update_self:
  "\<not> sqlite_fails e (UpdateContext cid) \<Longrightarrow> storage_get_context e s cid = Some ctx \<Longrightarrow>
   storage_get_context e (snd (storage_update_context_fragments e s cid ids)) cid
     = Some (ctx\<lparr>c_fragment_ids := ids\<rparr>)"
proof -
  assume ok: "\<not> sqlite_fails e (UpdateContext cid)"
    and got: "storage_get_context e s cid = Some ctx"
  have sel: "\<not> sqlite_fails e (SelectContext cid)"
    and f: "List.find (\<lambda>c. c_id c = cid) (contexts s) = Some ctx"
    using got by (auto simp: storage_get_context_def split: if_splits)
  have id: "c_id ctx = cid"
    using f by (auto simp: find_Some_iff)
  have "List.find (\<lambda>c. c_id c = cid)
          (map (\<lambda>c. if c_id c = cid then c\<lparr>c_fragment_ids := ids\<rparr> else c) (contexts s))
        = map_option (\<lambda>c. if c_id c = cid then c\<lparr>c_fragment_ids := ids\<rparr> else c)
            (List.find (\<lambda>c. c_id c = cid) (contexts s))"
    by (rule find_map_self) simp
  then show ?thesis
    using ok sel id
    by (simp add: storage_get_context_def storage_update_context_fragments_def f)
qed

lemma update_context_membership_other:
  "fst item \<noteq> cid \<Longrightarrow>
   storage_get_context e (update_context_membership e s item) cid = storage_get_context e s cid"
  by (cases item) (simp add: update_context_membership_def update_other split: option.splits)

lemma update_context_membership_self:
  "\<not> sqlite_fails e (UpdateContext cid) \<Longrightarrow> storage_get_context e s cid = Some ctx \<Longrightarrow>
   new_ids \<noteq> [] \<Longrightarrow>
   storage_get_context e (update_context_membership e s (cid, new_ids)) cid
     = Some (ctx\<lparr>c_fragment_ids := remdups (c_fragment_ids ctx @ new_ids)\<rparr>)"
  by (simp add: update_context_membership_def update_self)

lemma foldl_update_other:
  "cid \<notin> fst ` set groups \<Longrightarrow>
   storage_get_context e (foldl (update_context_membership e) s groups) cid
     = storage_get_context e s cid"
proof (induction groups arbitrary: s)
  case Nil
  show ?case by simp
next
  case (Cons g groups)
  then have "fst g \<noteq> cid" and "cid \<notin> fst ` set groups" by auto
  then show ?case
    using Cons.IH [of "update_context_membership e s g"]
    by (simp add: update_context_membership_other)
qed

lemma update_memberships_writes:
  assumes "distinct (map fst groups)" and "(cid, new_ids) \<in> set groups"
    and "new_ids \<noteq> []"
    and "\<not> sqlite_fails e (UpdateContext cid)"
    and "storage_get_context e s cid = Some ctx"
  shows "storage_get_context e (update_memberships e s groups) cid
     = Some (ctx\<lparr>c_fragment_ids := remdups (c_fragment_ids ctx @ new_ids)\<rparr>)"
  using assms(1,2,5) unfolding update_memberships_def
proof (induction groups arbitrary: s)
  case Nil
  then show ?case by simp
next
  case (Cons g groups)
  show ?case
  proof (cases "g = (cid, new_ids)")
    case True
    then have "cid \<notin> fst ` set groups" using Cons.prems(1) by auto
    then have "storage_get_context e
        (foldl (update_context_membership e) (update_context_membership e s (cid, new_ids)) groups) cid
        = storage_get_context e (update_context_membership e s (cid, new_ids)) cid"
      by (rule foldl_update_other)
    then show ?thesis
      using True update_context_membership_self [OF assms(4) Cons.prems(3) assms(3)] by simp
  next
    case False
    then have mem: "(cid, new_ids) \<in> set groups" using Cons.prems(2) by simp
    then have "cid \<in> fst ` set groups" by force
    then have ne: "fst g \<noteq> cid" using Cons.prems(1) by auto
    have d: "distinct (map fst groups)" using Cons.prems(1) by simp
    have g: "storage_get_context e (update_context_membership e s g) cid = Some ctx"
      using ne Cons.prems(3) by (simp add: update_context_membership_other)
    show ?thesis
      using Cons.IH [OF d mem g] by simp
  qed
qed

lemma add_to_group_ok: "groups_ok groups \<Longrightarrow> groups_ok (add_to_group groups k v)"
proof -
  assume ok: "groups_ok groups"
  have keys: "map fst (map (\<lambda>(k', v'). if k' = k then (k', v' @ [v]) else (k', v')) groups)
              = map fst groups"
    by (induction groups) auto
  have "list_all (\<lambda>g. snd g \<noteq> []) groups"
    using ok by (simp add: groups_ok_def)
  then have vals: "list_all (\<lambda>g. snd g \<noteq> [])
               (map (\<lambda>(k', v'). if k' = k then (k', v' @ [v]) else (k', v')) groups)"
    by (induction groups) (auto split: if_splits)
  show ?thesis
  proof (cases "k \<in> fst ` set groups")
    case True
    have "distinct (map fst groups)"
      using ok by (simp add: groups_ok_def)
    then have "distinct (map fst
        (map (\<lambda>(k', v'). if k' = k then (k', v' @ [v]) else (k', v')) groups))"
      by (simp only: keys)
    with vals have "groups_ok
        (map (\<lambda>(k', v'). if k' = k then (k', v' @ [v]) else (k', v')) groups)"
      unfolding groups_ok_def by blast
    then show ?thesis
      using True by (simp only: add_to_group_def if_True)
  next
    case False
    then show ?thesis
      using ok by (simp add: add_to_group_def groups_ok_def)
  qed
qed

lemma store_in_context_ok:
  "groups_ok (ls_groups st) \<Longrightarrow> groups_ok (ls_groups (store_in_context e p st content cid))"
  by (auto simp: store_in_context_def add_to_group_ok split: prod.splits sum.splits)

lemma store_resolved_groups:
  "groups_ok (ls_groups st) \<Longrightarrow> store_resolved e p st text cid = Inr st1 \<Longrightarrow>
   groups_ok (ls_groups st1)"
  by (auto simp: store_resolved_def store_in_context_ok
      split: if_splits option.splits prod.splits sum.splits)

lemma create_fragment_step_groups:
  "groups_ok (ls_groups st) \<Longrightarrow> create_fragment_step e p st fd = Inr st1 \<Longrightarrow>
   groups_ok (ls_groups st1)"
  by (cases fd)
    (auto simp: create_fragment_step_def Let_def
      split: if_splits json.splits dest: store_resolved_groups)

lemma create_fragments_groups:
  "groups_ok (ls_groups st) \<Longrightarrow> create_fragments e p fds st = Inr st1 \<Longrightarrow>
   groups_ok (ls_groups st1)"
proof (induction fds arbitrary: st)
  case Nil
  then show ?case by simp
next
  case (Cons fd fds)
  then show ?case
    by (auto split: sum.splits dest: create_fragment_step_groups)
qed

lemma create_fragments_step_groups:
  "groups_ok (ls_groups st) \<Longrightarrow> create_fragments_step e p entries st = Inr st1 \<Longrightarrow>
   groups_ok (ls_groups st1)"
  by (auto simp: create_fragments_step_def split: if_splits sum.splits
      dest: create_fragments_groups)

lemma create_phase_groups:
  "create_phase e s d p existing = Inr (cc, st) \<Longrightarrow> groups_ok (ls_groups st)"
proof -
  assume a: "create_phase e s d p existing = Inr (cc, st)"
  have start: "groups_ok (ls_groups
      \<lparr>ls_context_map = m, ls_created = [], ls_groups = [], ls_store = s2\<rparr>)" for m s2
    by (simp add: groups_ok_def)
  show ?thesis
    using a create_fragments_step_groups [OF start]
    by (auto simp: create_phase_def split: sum.splits prod.splits)
qed

text \<open>
  Claim C3. For a context that received new fragments in step 3, whose row is fetched
  at step 4 and whose update does not fail, the row after the call is the fetched row
  with its membership replaced by a duplicate-free list of exactly the fetched members
  and the new fragment ids.
\<close>

theorem membership_read_modify_write:
  assumes "create_phase e s decision project_id existing = Inr (new_context_ids, st)"
    and "(context_id, new_fragment_ids) \<in> set (ls_groups st)"
    and "storage_get_context e (ls_store st) context_id = Some ctx"
    and "\<not> sqlite_fails e (UpdateContext context_id)"
  shows "\<exists>written.
      storage_get_context e (snd (apply_curation_decision e s decision project_id existing))
        context_id = Some written
      \<and> set (c_fragment_ids written) = set (c_fragment_ids ctx) \<union> set new_fragment_ids
      \<and> distinct (c_fragment_ids written)
      \<and> new_fragment_ids \<noteq> []
      \<and> written = ctx\<lparr>c_fragment_ids := c_fragment_ids written\<rparr>"
proof -
  have ok: "groups_ok (ls_groups st)"
    using assms(1) by (rule create_phase_groups)
  then have d: "distinct (map fst (ls_groups st))" and ne: "new_fragment_ids \<noteq> []"
    using assms(2) by (auto simp: groups_ok_def list_all_iff)
  have "storage_get_context e (update_memberships e (ls_store st) (ls_groups st)) context_id
     = Some (ctx\<lparr>c_fragment_ids := remdups (c_fragment_ids ctx @ new_fragment_ids)\<rparr>)"
    using d assms(2) ne assms(4) assms(3) by (rule update_memberships_writes)
  then show ?thesis
    using ne by (simp add: apply_curation_decision_def assms(1))
qed

theorem membership_read_modify_write_witness:
  "\<exists>written.
     storage_get_context no_faults
       (snd (apply_curation_decision no_faults notes_store
          [(''contexts_to_create'', JArray []),
           (''fragments_to_create'',
            JArray [JObject [(''content'', JString ''new text''),
                             (''context_name'', JString ''notes'')]]),
           (''ids_to_delete'', JArray [])] ''p'' (contexts notes_store))) ''c1'' = Some written
     \<and> set (c_fragment_ids written) = {''f1'', ''id''}
     \<and> distinct (c_fragment_ids written)"
proof -
  let ?d = "[(''contexts_to_create'', JArray []),
           (''fragments_to_create'',
            JArray [JObject [(''content'', JString ''new text''),
                             (''context_name'', JString ''notes'')]]),
           (''ids_to_delete'', JArray [])]"
  have ev: "map_sum id (\<lambda>(cc, st). (ls_groups st, storage_get_context no_faults (ls_store st) ''c1''))
      (create_phase no_faults notes_store ?d ''p'' (contexts notes_store))
    = Inr ([(''c1'', [''id''])],
           Some \<lparr>c_id = ''c1'', c_project_id = ''p'', c_name = ''notes'',
                 c_description = ''notes'', c_fragment_ids = [''f1'']\<rparr>)"
    by code_simp
  then obtain cc st where cp: "create_phase no_faults notes_store ?d ''p'' (contexts notes_store)
        = Inr (cc, st)"
    and groups: "ls_groups st = [(''c1'', [''id''])]"
    and got: "storage_get_context no_faults (ls_store st) ''c1''
        = Some \<lparr>c_id = ''c1'', c_project_id = ''p'', c_name = ''notes'',
                 c_description = ''notes'', c_fragment_ids = [''f1'']\<rparr>"
    by (cases "create_phase no_faults notes_store ?d ''p'' (contexts notes_store)") auto
  have mem: "(''c1'', [''id'']) \<in> set (ls_groups st)"
    by (simp add: groups)
  have ok: "\<not> sqlite_fails no_faults (UpdateContext ''c1'')"
    by (simp add: no_faults_def)
  show ?thesis
    using membership_read_modify_write [OF cp mem got ok] by auto
qed

text \<open>
  Claim C2, amended. A failure of step 1 (the embedding or the similarity search) leaves
  an empty list of similar fragments and a failure of step 2 (listing the contexts) an
  empty list of contexts; neither ends the call. The step whose failure ends the call is
  the decision. Once a decision of the schema's types is obtained the call returns a
  result, whatever else fails, provided the insertion of the \<^verbatim>\<open>"general"\<close> context does
  not fail. (A decision of other types can end the call after its deletions, as
  \<open>curate_ill_typed_examples\<close> shows.)
\<close>

theorem curate_fault_tolerance:
  assumes "curation_inputs e s content project_id = (relevant, existing, s1)"
  shows "(isl (generate_embedding e content) \<longrightarrow> relevant = [])
     \<and> (\<forall>embedding. generate_embedding e content = Inr embedding
           \<and> isl (fst (search_memory_by_vector e s embedding project_id)) \<longrightarrow> relevant = [])
     \<and> (sqlite_fails e (ListContexts project_id) \<longrightarrow> existing = [])
     \<and> (isl (get_curation_decision (curation_reply content relevant existing))
          \<longrightarrow> isl (fst (curate_and_chunk e curation_reply s content project_id)))
     \<and> (\<forall>decision.
           get_curation_decision (curation_reply content relevant existing) = Inr decision
           \<and> schema_typed decision
           \<and> \<not> sqlite_fails e (InsertContext ''general'')
          \<longrightarrow> \<not> isl (fst (curate_and_chunk e curation_reply s content project_id)))"
proof (intro conjI impI allI)
  assume "isl (generate_embedding e content)"
  then show "relevant = []"
    using assms by (auto simp: curation_inputs_def isl_def)
next
  fix embedding
  assume "generate_embedding e content = Inr embedding
           \<and> isl (fst (search_memory_by_vector e s embedding project_id))"
  then show "relevant = []"
    using assms by (auto simp: curation_inputs_def isl_def split: prod.splits sum.splits)
next
  assume "sqlite_fails e (ListContexts project_id)"
  then show "existing = []"
    using assms
    by (auto simp: curation_inputs_def storage_list_contexts_by_project_def
        split: prod.splits sum.splits)
next
  assume "isl (get_curation_decision (curation_reply content relevant existing))"
  then show "isl (fst (curate_and_chunk e curation_reply s content project_id))"
    using assms by (auto simp: curate_and_chunk_def isl_def)
next
  fix decision
  assume a: "get_curation_decision (curation_reply content relevant existing) = Inr decision
           \<and> schema_typed decision
           \<and> \<not> sqlite_fails e (InsertContext ''general'')"
  then obtain res s' where r: "apply_curation_decision e s1 decision project_id existing = (Inr res, s')"
    using apply_curation_decision_ok by blast
  then have "deleted_ids res = ids_to_delete decision"
    by (rule apply_curation_decision_deleted)
  moreover have "has_len (ids_to_delete decision)"
    using a by (auto simp: schema_typed_def has_len_def split: json.splits)
  ultimately show "\<not> isl (fst (curate_and_chunk e curation_reply s content project_id))"
    using assms a r by (simp add: curate_and_chunk_def)
qed

text \<open>
  Claim C2 as stated fails. With the listing of contexts failing, the call still
  returns a result (and files the new fragment under a \<^verbatim>\<open>"general"\<close> context, the
  existing \<^verbatim>\<open>notes\<close> not having been seen); the call that does end in the failure is the
  one whose decision text is not JSON.
\<close>

theorem curate_listing_failure_counterexample:
  "storage_list_contexts_by_project
     (no_faults\<lparr>sqlite_fails := (\<lambda>op. op = ListContexts ''p'')\<rparr>) notes_store ''p'' = []
   \<and> fst (curate_and_chunk (no_faults\<lparr>sqlite_fails := (\<lambda>op. op = ListContexts ''p'')\<rparr>)
        (\<lambda>content relevant existing. one_fragment) notes_store ''new text'' ''p'')
     = Inr \<lparr>created_fragment_ids = [''id+''], created_context_ids = [],
            deleted_ids = JArray []\<rparr>
   \<and> fst (curate_and_chunk no_faults (\<lambda>content relevant existing. NotJson)
        notes_store ''new text'' ''p'') = Inl JSONDecodeError"
  by code_simp

theorem curate_fault_tolerance_witness:
  "curation_inputs
     (no_faults\<lparr>sqlite_fails := (\<lambda>op. op = ListContexts ''p''),
                embedding_of := (\<lambda>text. Inl ProviderError)\<rparr>) notes_store ''new text'' ''p''
     = ([], [], notes_store)
   \<and> isl (generate_embedding
        (no_faults\<lparr>sqlite_fails := (\<lambda>op. op = ListContexts ''p''),
                   embedding_of := (\<lambda>text. Inl ProviderError)\<rparr>) ''new text'')
   \<and> schema_typed
        [(''fragments_to_create'',
          JArray [JObject [(''content'', JString ''new text''),
                           (''context_name'', JString ''notes'')]]),
         (''contexts_to_create'', JArray []), (''ids_to_delete'', JArray [])]
   \<and> \<not> isl (fst (curate_and_chunk
        (no_faults\<lparr>sqlite_fails := (\<lambda>op. op = ListContexts ''p''),
                   embedding_of := (\<lambda>text. Inl ProviderError)\<rparr>)
        (\<lambda>content relevant existing. one_fragment) notes_store ''new text'' ''p''))
   \<and> isl (fst (curate_and_chunk
        (no_faults\<lparr>sqlite_fails := (\<lambda>op. op = ListContexts ''p''),
                   embedding_of := (\<lambda>text. Inl ProviderError)\<rparr>)
        (\<lambda>content relevant existing. NotJson) notes_store ''new text'' ''p''))"
proof -
  let ?e = "no_faults\<lparr>sqlite_fails := (\<lambda>op. op = ListContexts ''p''),
                embedding_of := (\<lambda>text. Inl ProviderError)\<rparr>"
  let ?d = "[(''fragments_to_create'',
          JArray [JObject [(''content'', JString ''new text''),
                           (''context_name'', JString ''notes'')]]),
         (''contexts_to_create'', JArray []), (''ids_to_delete'', JArray [])]"
  have inputs: "curation_inputs ?e notes_store ''new text'' ''p'' = ([], [], notes_store)"
    by code_simp
  have emb: "isl (generate_embedding ?e ''new text'')"
    by code_simp
  have general: "\<not> sqlite_fails ?e (InsertContext ''general'')"
    by simp
  have good: "get_curation_decision one_fragment = Inr ?d"
    by code_simp
  have typed: "schema_typed ?d"
    by code_simp
  have bad: "isl (get_curation_decision NotJson)"
    by (simp add: get_curation_decision_def)
  have ok: "\<not> isl (fst (curate_and_chunk ?e (\<lambda>content relevant existing. one_fragment)
                 notes_store ''new text'' ''p''))"
    using curate_fault_tolerance [OF inputs, of "\<lambda>content relevant existing. one_fragment"]
      good typed general by blast
  have fatal: "isl (fst (curate_and_chunk ?e (\<lambda>content relevant existing. NotJson)
                 notes_store ''new text'' ''p''))"
    using curate_fault_tolerance [OF inputs, of "\<lambda>content relevant existing. NotJson"] bad
    by blast
  show ?thesis
    using inputs emb typed ok fatal by blast
qed

text \<open>
  Claim C10. Whenever applying a decision returns a result, its \<^verbatim>\<open>deleted_ids\<close> is the
  decision's \<^verbatim>\<open>ids_to_delete\<close>, and it does return one for every decision of the
  schema's types whenever the insertion of the \<^verbatim>\<open>"general"\<close> context does not fail; a
  batch delete whose SQLite statement raises answers \<^verbatim>\<open>False\<close> and deletes nothing; and
  the same holds of the result of the whole call.
\<close>

theorem deleted_ids_verbatim:
  "(apply_curation_decision e s decision project_id existing = (Inr res, s')
      \<longrightarrow> deleted_ids res = ids_to_delete decision)
   \<and> (schema_typed decision \<and> \<not> sqlite_fails e (InsertContext ''general'')
      \<longrightarrow> (\<exists>res s'. apply_curation_decision e s decision project_id existing = (Inr res, s')
                    \<and> deleted_ids res = ids_to_delete decision))
   \<and> (ids \<noteq> [] \<and> sqlite_fails e (DeleteFragments ids)
      \<longrightarrow> delete_fragments e s ids project_id = (False, s))
   \<and> (curation_inputs e s content project_id = (relevant, existing, s1)
        \<and> get_curation_decision (curation_reply content relevant existing) = Inr decision
        \<and> curate_and_chunk e curation_reply s content project_id = (Inr res, s')
      \<longrightarrow> deleted_ids res = ids_to_delete decision)"
proof (intro conjI impI)
  assume "apply_curation_decision e s decision project_id existing = (Inr res, s')"
  then show "deleted_ids res = ids_to_delete decision"
    by (rule apply_curation_decision_deleted)
next
  assume "schema_typed decision \<and> \<not> sqlite_fails e (InsertContext ''general'')"
  then obtain r t where rt: "apply_curation_decision e s decision project_id existing = (Inr r, t)"
    using apply_curation_decision_ok by blast
  then have "deleted_ids r = ids_to_delete decision"
    by (rule apply_curation_decision_deleted)
  then show "\<exists>res s'. apply_curation_decision e s decision project_id existing = (Inr res, s')
                    \<and> deleted_ids res = ids_to_delete decision"
    using rt by blast
next
  assume "ids \<noteq> [] \<and> sqlite_fails e (DeleteFragments ids)"
  then show "delete_fragments e s ids project_id = (False, s)"
    by (simp add: delete_fragments_def storage_delete_fragments_def)
next
  assume a: "curation_inputs e s content project_id = (relevant, existing, s1)
        \<and> get_curation_decision (curation_reply content relevant existing) = Inr decision
        \<and> curate_and_chunk e curation_reply s content project_id = (Inr res, s')"
  then have "apply_curation_decision e s1 decision project_id existing = (Inr res, s')"
    using curate_and_chunk_result by blast
  then show "deleted_ids res = ids_to_delete decision"
    by (rule apply_curation_decision_deleted)
qed

theorem deleted_ids_verbatim_witness:
  "apply_curation_decision (no_faults\<lparr>sqlite_fails := (\<lambda>op. op = DeleteFragments [''f1''])\<rparr>)
      notes_store
      [(''contexts_to_create'', JArray []), (''fragments_to_create'', JArray []),
       (''ids_to_delete'', JArray [JString ''f1''])] ''p'' []
     = (Inr \<lparr>created_fragment_ids = [], created_context_ids = [],
             deleted_ids = JArray [JString ''f1'']\<rparr>,
        notes_store)
   \<and> delete_fragments (no_faults\<lparr>sqlite_fails := (\<lambda>op. op = DeleteFragments [''f1''])\<rparr>)
        notes_store [''f1''] ''p'' = (False, notes_store)
   \<and> map f_id (fragments notes_store) = [''f1'']"
proof -
  let ?e = "no_faults\<lparr>sqlite_fails := (\<lambda>op. op = DeleteFragments [''f1''])\<rparr>"
  let ?d = "[(''contexts_to_create'', JArray []), (''fragments_to_create'', JArray []),
       (''ids_to_delete'', JArray [JString ''f1''])]"
  have run: "apply_curation_decision ?e notes_store ?d ''p'' []
     = (Inr \<lparr>created_fragment_ids = [], created_context_ids = [],
             deleted_ids = JArray [JString ''f1'']\<rparr>,
        notes_store)"
    by code_simp
  have fails: "sqlite_fails ?e (DeleteFragments [''f1''])"
    by simp
  have rows: "map f_id (fragments notes_store) = [''f1'']"
    by (simp add: notes_store_def)
  show ?thesis
    using run fails rows
      deleted_ids_verbatim [of ?e notes_store ?d "''p''" "[]" _ _ "[''f1'']"]
    by simp
qed

section \<open>Properties of the synthesizer\<close>

lemma synthesize_legacy_returns:
  "\<exists>r. synthesize_legacy generate json_loads query hits = Inr r"
  by (simp add: synthesize_legacy_def split: sum.splits)

lemma length_concat_sum: "length (concat xss) = sum_list (map length xss)"
  by (induction xss) simp_all

lemma length_flatten_grouped:
  "length (flatten_grouped grouped)
     = sum_list (map (\<lambda>item. sum_list (map (\<lambda>ctx. length (snd ctx)) (snd item))) grouped)"
  by (simp add: flatten_grouped_def length_concat_sum comp_def)

lemma synthesize_contextual_fallback:
  assumes "isl (contextual_attempt e s generate json_loads query grouped)"
    and "isl (legacy_attempt generate json_loads query (flatten_grouped grouped))"
  shows "synthesize_contextual e s generate json_loads query grouped
          = Inr (fallback_response query (length (flatten_grouped grouped)))"
  using assms
  by (cases "contextual_attempt e s generate json_loads query grouped";
      cases "legacy_attempt generate json_loads query (flatten_grouped grouped)")
    (simp_all add: synthesize_contextual_def synthesize_legacy_def)

text \<open>
  Claim C9 as stated fails in its last part: the fallback is not built only from the
  count of the retrieved fragments. With both attempts failing on the same grouped
  results, two queries get two different fallback responses, each quoting its query.
\<close>

theorem synthesize_fallback_counterexample:
  "synthesize_contextual no_faults notes_store (\<lambda>p. Inl ProviderError)
      (\<lambda>t. Inl JSONDecodeError) ''q'' [(''p'', [(''c1'', [notes_hit])])]
     = Inr (JObject
         [(''synthesized_response'',
           JString (''Found 1 relevant fragments related to '' @ [CHR 0x27] @ ''q''
                    @ [CHR 0x27] @ ''. Manual review recommended due to synthesis ''
                    @ ''processing limitations.'')),
          (''confidence'', JNumber 0.3),
          (''information_coverage'', JString ''partial''),
          (''gaps'', JArray [JString ''synthesis processing error'']),
          (''patterns_identified'', JArray []),
          (''fragments_relevance'', JObject [])])
   \<and> synthesize_contextual no_faults notes_store (\<lambda>p. Inl ProviderError)
      (\<lambda>t. Inl JSONDecodeError) ''other'' [(''p'', [(''c1'', [notes_hit])])]
     = Inr (JObject
         [(''synthesized_response'',
           JString (''Found 1 relevant fragments related to '' @ [CHR 0x27] @ ''other''
                    @ [CHR 0x27] @ ''. Manual review recommended due to synthesis ''
                    @ ''processing limitations.'')),
          (''confidence'', JNumber 0.3),
          (''information_coverage'', JString ''partial''),
          (''gaps'', JArray [JString ''synthesis processing error'']),
          (''patterns_identified'', JArray []),
          (''fragments_relevance'', JObject [])])
   \<and> synthesize_contextual no_faults notes_store (\<lambda>p. Inl ProviderError)
      (\<lambda>t. Inl JSONDecodeError) ''q'' [(''p'', [(''c1'', [notes_hit])])]
     \<noteq> synthesize_contextual no_faults notes_store (\<lambda>p. Inl ProviderError)
      (\<lambda>t. Inl JSONDecodeError) ''other'' [(''p'', [(''c1'', [notes_hit])])]"
proof -
  have one: "str_nat (Suc 0) = ''1''"
    by code_simp
  show ?thesis
    by (simp add: synthesize_contextual_def synthesize_legacy_def contextual_attempt_def
        legacy_attempt_def response_text_def fallback_response_def flatten_grouped_def one
        del: str_nat.simps)
qed

text \<open>
  Claim C9, amended. \<open>synthesize_contextual\<close> returns a value on every input, whatever
  the provider, the parser and the store do. When the contextual attempt fails (the call
  raises, the response has no text, the text does not parse, or the parsed value is not
  an object) the result is that of the legacy synthesis on the flattened hits; when the
  legacy attempt fails too, it is the fallback response: the sentence that quotes the
  query and gives the number of retrieved fragments, confidence 0.3, coverage
  \<^verbatim>\<open>partial\<close>, the one gap \<^verbatim>\<open>synthesis processing error\<close>, no patterns and no fragment
  relevance. It is built from the query and, of the fragments, from their number alone,
  which is the number of hits in all the groups.
\<close>

theorem synthesize_never_raises:
  "(\<exists>r. synthesize_contextual e s generate json_loads query grouped = Inr r)
   \<and> (isl (contextual_attempt e s generate json_loads query grouped) \<longrightarrow>
        synthesize_contextual e s generate json_loads query grouped
          = synthesize_legacy generate json_loads query (flatten_grouped grouped))
   \<and> (isl (contextual_attempt e s generate json_loads query grouped)
        \<and> isl (legacy_attempt generate json_loads query (flatten_grouped grouped)) \<longrightarrow>
        synthesize_contextual e s generate json_loads query grouped
          = Inr (JObject
              [(''synthesized_response'',
                JString (''Found ''
                  @ str_nat (sum_list (map (\<lambda>item. sum_list (map (\<lambda>ctx. length (snd ctx))
                                                             (snd item))) grouped))
                  @ '' relevant fragments related to '' @ [CHR 0x27] @ query @ [CHR 0x27]
                  @ ''. Manual review recommended due to synthesis processing limitations.'')),
               (''confidence'', JNumber 0.3),
               (''information_coverage'', JString ''partial''),
               (''gaps'', JArray [JString ''synthesis processing error'']),
               (''patterns_identified'', JArray []),
               (''fragments_relevance'', JObject [])]))
   \<and> (\<not> isl (contextual_attempt e s generate json_loads query grouped) \<longrightarrow>
        synthesize_contextual e s generate json_loads query grouped
          = contextual_attempt e s generate json_loads query grouped)
   \<and> flatten_grouped grouped = concat (map (\<lambda>item. concat (map snd (snd item))) grouped)"
proof (intro conjI impI)
  show "\<exists>r. synthesize_contextual e s generate json_loads query grouped = Inr r"
    using synthesize_legacy_returns [of generate json_loads query "flatten_grouped grouped"]
    by (cases "contextual_attempt e s generate json_loads query grouped")
      (simp_all add: synthesize_contextual_def)
next
  assume "isl (contextual_attempt e s generate json_loads query grouped)"
  then show "synthesize_contextual e s generate json_loads query grouped
          = synthesize_legacy generate json_loads query (flatten_grouped grouped)"
    by (cases "contextual_attempt e s generate json_loads query grouped")
      (simp_all add: synthesize_contextual_def)
next
  assume "isl (contextual_attempt e s generate json_loads query grouped)
        \<and> isl (legacy_attempt generate json_loads query (flatten_grouped grouped))"
  then have "synthesize_contextual e s generate json_loads query grouped
          = Inr (fallback_response query (length (flatten_grouped grouped)))"
    by (simp add: synthesize_contextual_fallback)
  then show "synthesize_contextual e s generate json_loads query grouped
          = Inr (JObject
              [(''synthesized_response'',
                JString (''Found ''
                  @ str_nat (sum_list (map (\<lambda>item. sum_list (map (\<lambda>ctx. length (snd ctx))
                                                             (snd item))) grouped))
                  @ '' relevant fragments related to '' @ [CHR 0x27] @ query @ [CHR 0x27]
                  @ ''. Manual review recommended due to synthesis processing limitations.'')),
               (''confidence'', JNumber 0.3),
               (''information_coverage'', JString ''partial''),
               (''gaps'', JArray [JString ''synthesis processing error'']),
               (''patterns_identified'', JArray []),
               (''fragments_relevance'', JObject [])])"
    unfolding length_flatten_grouped fallback_response_def by simp
next
  assume "\<not> isl (contextual_attempt e s generate json_loads query grouped)"
  then show "synthesize_contextual e s generate json_loads query grouped
          = contextual_attempt e s generate json_loads query grouped"
    by (cases "contextual_attempt e s generate json_loads query grouped")
      (simp_all add: synthesize_contextual_def)
next
  show "flatten_grouped grouped = concat (map (\<lambda>item. concat (map snd (snd item))) grouped)"
    by (simp add: flatten_grouped_def)
qed

theorem synthesize_never_raises_witness:
  "isl (contextual_attempt no_faults notes_store (\<lambda>p. Inl ProviderError)
          (\<lambda>t. Inl JSONDecodeError) ''what now''
          [(''p'', [(''c1'', replicate 7 notes_hit), (''c2'', [notes_hit])]),
           (''p2'', [(''unassigned'', replicate 4 notes_hit)])])
   \<and> isl (legacy_attempt (\<lambda>p. Inl ProviderError) (\<lambda>t. Inl JSONDecodeError) ''what now''
          (flatten_grouped
             [(''p'', [(''c1'', replicate 7 notes_hit), (''c2'', [notes_hit])]),
              (''p2'', [(''unassigned'', replicate 4 notes_hit)])]))
   \<and> synthesize_contextual no_faults notes_store (\<lambda>p. Inl ProviderError)
        (\<lambda>t. Inl JSONDecodeError) ''what now''
        [(''p'', [(''c1'', replicate 7 notes_hit), (''c2'', [notes_hit])]),
         (''p2'', [(''unassigned'', replicate 4 notes_hit)])]
      = Inr (JObject
          [(''synthesized_response'',
            JString (''Found 12 relevant fragments related to '' @ [CHR 0x27] @ ''what now''
                     @ [CHR 0x27] @ ''. Manual review recommended due to synthesis ''
                     @ ''processing limitations.'')),
           (''confidence'', JNumber 0.3),
           (''information_coverage'', JString ''partial''),
           (''gaps'', JArray [JString ''synthesis processing error'']),
           (''patterns_identified'', JArray []),
           (''fragments_relevance'', JObject [])])
   \<and> isl (contextual_attempt no_faults notes_store (\<lambda>p. Inr (Some ''[]''))
          (\<lambda>t. Inr (JArray [])) ''q'' [(''p'', [(''c1'', [notes_hit])])])
   \<and> synthesize_contextual no_faults notes_store (\<lambda>p. Inr (Some ''[]''))
        (\<lambda>t. Inr (JArray [])) ''q'' [(''p'', [(''c1'', [notes_hit])])]
      = Inr (JArray [])
   \<and> synthesize_contextual no_faults notes_store (\<lambda>p. Inr (Some ''{}''))
        (\<lambda>t. Inr (JObject [])) ''q'' [(''p'', [(''c1'', [notes_hit])])]
      = Inr (JObject [(''synthesis_type'', JString ''contextual''),
                      (''projects_used'', JNumber 1), (''contexts_used'', JNumber 1)])"
proof -
  let ?g = "[(''p'', [(''c1'', [notes_hit])])]"
  let ?big = "[(''p'', [(''c1'', replicate 7 notes_hit), (''c2'', [notes_hit])]),
         (''p2'', [(''unassigned'', replicate 4 notes_hit)])]"
  have a: "isl (contextual_attempt no_faults notes_store (\<lambda>p. Inl ProviderError)
          (\<lambda>t. Inl JSONDecodeError) ''what now'' ?big)"
    by (simp add: contextual_attempt_def response_text_def)
  have b: "isl (legacy_attempt (\<lambda>p. Inl ProviderError) (\<lambda>t. Inl JSONDecodeError) ''what now''
          (flatten_grouped ?big))"
    by (simp add: legacy_attempt_def response_text_def)
  have n: "str_nat (sum_list (map (\<lambda>item. sum_list (map (\<lambda>ctx. length (snd ctx)) (snd item)))
             ?big)) = ''12''"
    by code_simp
  have c: "isl (contextual_attempt no_faults notes_store (\<lambda>p. Inr (Some ''[]''))
          (\<lambda>t. Inr (JArray [])) ''q'' ?g)"
    by (simp add: contextual_attempt_def response_text_def set_item_def)
  have l: "synthesize_legacy (\<lambda>p. Inr (Some ''[]'')) (\<lambda>t. Inr (JArray [])) ''q''
             (flatten_grouped ?g) = Inr (JArray [])"
    by (simp add: synthesize_legacy_def legacy_attempt_def response_text_def)
  have d: "contextual_attempt no_faults notes_store (\<lambda>p. Inr (Some ''{}''))
        (\<lambda>t. Inr (JObject [])) ''q'' ?g
      = Inr (JObject [(''synthesis_type'', JString ''contextual''),
                      (''projects_used'', JNumber 1), (''contexts_used'', JNumber 1)])"
    by (simp add: contextual_attempt_def response_text_def set_item_def)
  note t1 = synthesize_never_raises [of no_faults notes_store "\<lambda>p. Inl ProviderError"
        "\<lambda>t. Inl JSONDecodeError" "''what now''" ?big]
  note t2 = synthesize_never_raises [of no_faults notes_store "\<lambda>p. Inr (Some ''[]'')"
        "\<lambda>t. Inr (JArray [])" "''q''" ?g]
  note t3 = synthesize_never_raises [of no_faults notes_store "\<lambda>p. Inr (Some ''{}'')"
        "\<lambda>t. Inr (JObject [])" "''q''" ?g]
  have r1: "synthesize_contextual no_faults notes_store (\<lambda>p. Inl ProviderError)
        (\<lambda>t. Inl JSONDecodeError) ''what now'' ?big
      = Inr (JObject
          [(''synthesized_response'',
            JString (''Found 12 relevant fragments related to '' @ [CHR 0x27] @ ''what now''
                     @ [CHR 0x27] @ ''. Manual review recommended due to synthesis ''
                     @ ''processing limitations.'')),
           (''confidence'', JNumber 0.3),
           (''information_coverage'', JString ''partial''),
           (''gaps'', JArray [JString ''synthesis processing error'']),
           (''patterns_identified'', JArray []),
           (''fragments_relevance'', JObject [])])"
  proof -
    have "synthesize_contextual no_faults notes_store (\<lambda>p. Inl ProviderError)
        (\<lambda>t. Inl JSONDecodeError) ''what now'' ?big
      = Inr (JObject
              [(''synthesized_response'',
                JString (''Found ''
                  @ str_nat (sum_list (map (\<lambda>item. sum_list (map (\<lambda>ctx. length (snd ctx))
                                                             (snd item))) ?big))
                  @ '' relevant fragments related to '' @ [CHR 0x27] @ ''what now'' @ [CHR 0x27]
                  @ ''. Manual review recommended due to synthesis processing limitations.'')),
               (''confidence'', JNumber 0.3),
               (''information_coverage'', JString ''partial''),
               (''gaps'', JArray [JString ''synthesis processing error'']),
               (''patterns_identified'', JArray []),
               (''fragments_relevance'', JObject [])])"
      using t1 a b by blast
    then show ?thesis
      unfolding n by simp
  qed
  have r2: "synthesize_contextual no_faults notes_store (\<lambda>p. Inr (Some ''[]''))
        (\<lambda>t. Inr (JArray [])) ''q'' ?g = Inr (JArray [])"
    using t2 c unfolding l by blast
  have r3: "synthesize_contextual no_faults notes_store (\<lambda>p. Inr (Some ''{}''))
        (\<lambda>t. Inr (JObject [])) ''q'' ?g
      = Inr (JObject [(''synthesis_type'', JString ''contextual''),
                      (''projects_used'', JNumber 1), (''contexts_used'', JNumber 1)])"
    using t3 unfolding d by (simp add: isl_def)
  show ?thesis
    using a b c r1 r2 r3 by blast
qed

end
